theory Spec2Isabelle
  imports Complex_Main "HOL-Library.Word"
begin

unbundle bit_operations_syntax

section \<open>JavaScript numbers\<close>

text \<open>
  A JavaScript number is modelled as a real number or one of the three special values
  of IEEE 754 arithmetic. The operations below follow the IEEE rules for the special
  values (what is \<open>NaN\<close>, what is infinite, what a division by zero gives). Rounding,
  overflow of finite results and the sign of zero are not modelled: a finite result is the
  exact real, and zero divides as \<open>+0\<close> does.
\<close>

datatype jsnum = Num real | PosInf | NegInf | NaN

fun isFinite :: "jsnum \<Rightarrow> bool" where
  "isFinite (Num r) = True"
| "isFinite PosInf = False"
| "isFinite NegInf = False"
| "isFinite NaN = False"

fun js_neg :: "jsnum \<Rightarrow> jsnum" where
  "js_neg (Num a) = Num (- a)"
| "js_neg PosInf = NegInf"
| "js_neg NegInf = PosInf"
| "js_neg NaN = NaN"

fun js_add :: "jsnum \<Rightarrow> jsnum \<Rightarrow> jsnum" where
  "js_add NaN y = NaN"
| "js_add x NaN = NaN"
| "js_add (Num a) (Num b) = Num (a + b)"
| "js_add PosInf NegInf = NaN"
| "js_add NegInf PosInf = NaN"
| "js_add PosInf y = PosInf"
| "js_add NegInf y = NegInf"
| "js_add x PosInf = PosInf"
| "js_add x NegInf = NegInf"

definition js_sub :: "jsnum \<Rightarrow> jsnum \<Rightarrow> jsnum" where
  "js_sub x y = js_add x (js_neg y)"

text \<open>The sign of an infinite product or quotient: \<open>True\<close> is negative.\<close>

fun js_negative :: "jsnum \<Rightarrow> bool" where
  "js_negative (Num a) = (a < 0)"
| "js_negative PosInf = False"
| "js_negative NegInf = True"
| "js_negative NaN = False"

definition signed_inf :: "bool \<Rightarrow> jsnum" where
  "signed_inf neg = (if neg then NegInf else PosInf)"

fun js_mul :: "jsnum \<Rightarrow> jsnum \<Rightarrow> jsnum" where
  "js_mul NaN y = NaN"
| "js_mul x NaN = NaN"
| "js_mul (Num a) (Num b) = Num (a * b)"
| "js_mul (Num a) y = (if a = 0 then NaN else signed_inf (js_negative (Num a) \<noteq> js_negative y))"
| "js_mul x (Num b) = (if b = 0 then NaN else signed_inf (js_negative x \<noteq> js_negative (Num b)))"
| "js_mul x y = signed_inf (js_negative x \<noteq> js_negative y)"

fun js_div :: "jsnum \<Rightarrow> jsnum \<Rightarrow> jsnum" where
  "js_div NaN y = NaN"
| "js_div x NaN = NaN"
| "js_div (Num a) (Num b) =
     (if b \<noteq> 0 then Num (a / b)
      else if a = 0 then NaN
      else signed_inf (a < 0))"
| "js_div (Num a) y = Num 0"
| "js_div x (Num b) = signed_inf (js_negative x \<noteq> js_negative (Num b))"
| "js_div x y = NaN"

fun js_sqrt :: "jsnum \<Rightarrow> jsnum" where
  "js_sqrt (Num a) = (if a < 0 then NaN else Num (sqrt a))"
| "js_sqrt PosInf = PosInf"
| "js_sqrt NegInf = NaN"
| "js_sqrt NaN = NaN"

fun js_exp :: "jsnum \<Rightarrow> jsnum" where
  "js_exp (Num a) = Num (exp a)"
| "js_exp PosInf = PosInf"
| "js_exp NegInf = Num 0"
| "js_exp NaN = NaN"

fun js_abs :: "jsnum \<Rightarrow> jsnum" where
  "js_abs (Num a) = Num \<bar>a\<bar>"
| "js_abs PosInf = PosInf"
| "js_abs NegInf = PosInf"
| "js_abs NaN = NaN"

text \<open>\<open>x ** k\<close> for a literal exponent \<open>k\<close>.\<close>

definition js_pow :: "jsnum \<Rightarrow> nat \<Rightarrow> jsnum" where
  "js_pow x k =
     (if k = 0 then Num 1
      else case x of
        Num a \<Rightarrow> Num (a ^ k)
      | PosInf \<Rightarrow> PosInf
      | NegInf \<Rightarrow> (if even k then PosInf else NegInf)
      | NaN \<Rightarrow> NaN)"

text \<open>The comparison \<open>x < y\<close>: false as soon as one side is \<open>NaN\<close>.\<close>

fun js_lt :: "jsnum \<Rightarrow> jsnum \<Rightarrow> bool" where
  "js_lt NaN y = False"
| "js_lt x NaN = False"
| "js_lt (Num a) (Num b) = (a < b)"
| "js_lt x PosInf = (x \<noteq> PosInf)"
| "js_lt NegInf y = (y \<noteq> NegInf)"
| "js_lt x y = False"

text \<open>The comparison \<open>x >= y\<close>, false too as soon as one side is \<open>NaN\<close>.\<close>

fun js_ge :: "jsnum \<Rightarrow> jsnum \<Rightarrow> bool" where
  "js_ge NaN y = False"
| "js_ge x NaN = False"
| "js_ge (Num a) (Num b) = (b \<le> a)"
| "js_ge PosInf y = True"
| "js_ge x NegInf = True"
| "js_ge x y = False"

text \<open>\<open>String(x)\<close> of a number that is not finite.\<close>

fun js_String_special :: "jsnum \<Rightarrow> string" where
  "js_String_special PosInf = ''Infinity''"
| "js_String_special NegInf = ''-Infinity''"
| "js_String_special x = ''NaN''"

text \<open>
  The number formatting built-ins \<open>toFixed\<close> and \<open>toExponential\<close> and the
  conversion of an integer inside a template literal belong to the host and are taken
  as parameters.
\<close>

record formatter =
  toFixed :: "jsnum \<Rightarrow> nat \<Rightarrow> string"
  toExponential :: "jsnum \<Rightarrow> nat \<Rightarrow> string"
  showInt :: "int \<Rightarrow> string"

section \<open>Statistics helpers\<close>

text \<open>\<open>normalCdf\<close> of \<open>src/App.jsx\<close> (the copy in \<open>vite.config.js\<close> is the same expression).\<close>

definition normalCdf :: "jsnum \<Rightarrow> jsnum" where
  "normalCdf x =
     (let t = js_div (Num 1) (js_add (Num 1) (js_mul (Num 0.2316419) x));
          d = js_div (js_exp (js_div (js_mul (js_neg x) x) (Num 2)))
                     (js_sqrt (js_mul (Num 2) (Num pi)));
          poly =
            js_add
              (js_sub
                (js_add
                  (js_sub (js_mul (Num 0.31938153) t)
                          (js_mul (Num 0.356563782) (js_pow t 2)))
                  (js_mul (Num 1.781477937) (js_pow t 3)))
                (js_mul (Num 1.821255978) (js_pow t 4)))
              (js_mul (Num 1.330274429) (js_pow t 5));
          phi = js_sub (Num 1) (js_mul d poly)
      in phi)"

definition zAndP :: "jsnum \<Rightarrow> jsnum \<Rightarrow> jsnum \<times> jsnum" where
  "zAndP hits n =
     (let z = js_div (js_sub hits (js_mul (Num 0.5) n)) (js_sqrt (js_mul n (Num 0.25)));
          p = js_mul (Num 2) (js_sub (Num 1) (normalCdf (js_abs z)))
      in (z, p))"

datatype kind = Focus | Control

record session_result =
  res_kind :: kind
  res_n :: int
  res_hits :: int
  res_rate :: jsnum
  res_z :: jsnum
  res_p :: jsnum

record comparison =
  cmp_diff :: jsnum
  cmp_z :: jsnum
  cmp_p :: jsnum

definition diffTest :: "session_result \<Rightarrow> session_result \<Rightarrow> comparison" where
  "diffTest a b =
     (let diff = js_sub (res_rate a) (res_rate b);
          se = js_sqrt
                 (js_add
                   (js_div (js_mul (res_rate a) (js_sub (Num 1) (res_rate a)))
                           (Num (of_int (res_n a))))
                   (js_div (js_mul (res_rate b) (js_sub (Num 1) (res_rate b)))
                           (Num (of_int (res_n b)))));
          z = js_div diff se;
          p = js_mul (Num 2) (js_sub (Num 1) (normalCdf (js_abs z)))
      in \<lparr>cmp_diff = diff, cmp_z = z, cmp_p = p\<rparr>)"

definition toExp :: "formatter \<Rightarrow> jsnum \<Rightarrow> string" where
  "toExp fm p = (if \<not> isFinite p then js_String_special p else toExponential fm p 3)"

subsection \<open>The formulas as the specification words them\<close>

text \<open>
  Over the reals: the approximation of the normal distribution function with the
  coefficients of Abramowitz and Stegun, the one-sample statistic and the two-sample
  statistic.
\<close>

definition cdf_spec :: "real \<Rightarrow> real" where
  "cdf_spec x =
     (let t = 1 / (1 + 0.2316419 * x);
          d = exp (- (x\<^sup>2) / 2) / sqrt (2 * pi);
          poly = 0.31938153 * t - 0.356563782 * t\<^sup>2 + 1.781477937 * t ^ 3
                 - 1.821255978 * t ^ 4 + 1.330274429 * t ^ 5
      in 1 - d * poly)"

definition oneSample_z_spec :: "real \<Rightarrow> real \<Rightarrow> real" where
  "oneSample_z_spec hits n = (hits - 0.5 * n) / sqrt (0.25 * n)"

definition twoSample_se_spec :: "real \<Rightarrow> real \<Rightarrow> real \<Rightarrow> real \<Rightarrow> real" where
  "twoSample_se_spec ra na rb nb = sqrt (ra * (1 - ra) / na + rb * (1 - rb) / nb)"

section \<open>The random bit source\<close>

text \<open>
  The entropy the host offers: whether \<open>crypto.getRandomValues\<close> exists, the bytes it
  delivers, in the order it delivers them, and the values \<open>Math.random()\<close> returns, in
  order. A consumer holds the count of values it has drawn so far, so that every request
  is served from values not handed out before. \<open>crypto.getRandomValues\<close> rejects a
  request for more than 65536 bytes; the program only asks for its default chunk, which is
  that size, and the theorems below are stated for chunks within the quota.
\<close>

type_synonym byte = "8 word"

record entropy =
  crypto_available :: bool
  getRandomValues :: "nat \<Rightarrow> byte"
  mathRandom :: "nat \<Rightarrow> real"

text \<open>
  The closure variables of \<open>makeBufferedRng\<close> in \<open>src/App.jsx\<close>: the buffer \<open>buf\<close>
  and the read cursor \<open>idx\<close>; \<open>drawn\<close> counts the values taken from the host.
  Storing \<open>Math.floor(Math.random() * 256)\<close> into a \<open>Uint8Array\<close> keeps its low
  eight bits.
\<close>

record rng =
  buf :: "byte list"
  idx :: nat
  drawn :: nat

definition refill :: "nat \<Rightarrow> entropy \<Rightarrow> rng \<Rightarrow> rng" where
  "refill chunkSize env r =
     (let fresh =
            (if crypto_available env
             then map (\<lambda>i. getRandomValues env (drawn r + i)) [0..<chunkSize]
             else map (\<lambda>i. word_of_int \<lfloor>mathRandom env (drawn r + i) * 256\<rfloor>) [0..<chunkSize])
      in \<lparr>buf = fresh, idx = 0, drawn = drawn r + chunkSize\<rparr>)"

definition makeBufferedRng :: "nat \<Rightarrow> entropy \<Rightarrow> rng" where
  "makeBufferedRng chunkSize env = refill chunkSize env \<lparr>buf = [], idx = 0, drawn = 0\<rparr>"

definition default_chunkSize :: nat where
  "default_chunkSize = 65536"

text \<open>
  \<open>flipBit\<close>: the bit and the closure state after the call. Reading a typed array
  beyond its end gives \<open>undefined\<close>, and \<open>undefined & 1\<close> is \<open>0\<close>.
\<close>

definition flipBit :: "nat \<Rightarrow> entropy \<Rightarrow> rng \<Rightarrow> nat \<times> rng" where
  "flipBit chunkSize env r =
     (let r1 = (if length (buf r) \<le> idx r then refill chunkSize env r else r);
          bit = (if idx r1 < length (buf r1) then unat (buf r1 ! idx r1 AND 1) else 0)
      in (bit, r1\<lparr>idx := idx r1 + 1\<rparr>))"

text \<open>
  \<open>flip\<close> of the TypeScript variant kept in \<open>vite.config.js\<close>: one fresh byte for
  each call; the state is the count of values drawn.
\<close>

definition flip :: "entropy \<Rightarrow> nat \<Rightarrow> nat \<times> nat" where
  "flip env pos =
     (if \<not> crypto_available env
      then ((if mathRandom env pos < 0.5 then 0 else 1), pos + 1)
      else (unat (getRandomValues env pos AND 1), pos + 1))"

text \<open>The state of the closure after \<open>k\<close> calls, and the bit the next call returns.\<close>

fun rng_after :: "nat \<Rightarrow> entropy \<Rightarrow> nat \<Rightarrow> rng" where
  "rng_after chunkSize env 0 = makeBufferedRng chunkSize env"
| "rng_after chunkSize env (Suc k) = snd (flipBit chunkSize env (rng_after chunkSize env k))"

definition bit_no :: "nat \<Rightarrow> entropy \<Rightarrow> nat \<Rightarrow> nat" where
  "bit_no chunkSize env k = fst (flipBit chunkSize env (rng_after chunkSize env k))"

text \<open>The byte the host hands out at position \<open>i\<close>, whichever source is in use.\<close>

definition source_byte :: "entropy \<Rightarrow> nat \<Rightarrow> byte" where
  "source_byte env i =
     (if crypto_available env then getRandomValues env i
      else word_of_int \<lfloor>mathRandom env i * 256\<rfloor>)"

section \<open>The component state and its handlers\<close>

datatype running_mode = Idle | RunFocus | RunControl | RunBoth

datatype js_error = Error string

text \<open>
  The state of the \<open>App\<close> component of \<open>src/App.jsx\<close>. \<open>useRef\<close> creates one
  token object when the component mounts: \<open>cancelRef\<close> is its address and \<open>heap\<close>
  maps an address to the \<open>cancelled\<close> field of the object there. \<open>calls\<close> is a history
  variable, not a variable of the program: the arguments \<open>(kind, n, cancelRef)\<close> of
  every call of \<open>runSession\<close>, in order.
\<close>

record app =
  app_n :: jsnum
  running :: running_mode
  liveMsg :: string
  progress :: jsnum
  results :: "session_result list"
  compareLine :: string
  error :: string
  cancelRef :: nat
  heap :: "nat \<Rightarrow> bool option"
  calls :: "(kind \<times> int \<times> nat) list"

definition App_mount :: app where
  "App_mount =
     \<lparr>app_n = Num 100000, running = Idle, liveMsg = [], progress = Num 0, results = [],
      compareLine = [], error = [], cancelRef = 0, heap = [0 \<mapsto> False], calls = []\<rparr>"

definition reset :: "app \<Rightarrow> app" where
  "reset w =
     w\<lparr>results := [], compareLine := [], progress := Num 0, liveMsg := [], error := [],
       heap := (heap w)(cancelRef w \<mapsto> False)\<rparr>"

definition cancel :: "app \<Rightarrow> app" where
  "cancel w =
     w\<lparr>heap := (heap w)(cancelRef w \<mapsto> True), liveMsg := ''Cancelled.'', running := Idle\<rparr>"

text \<open>\<open>n | 0\<close>: the conversion to a signed 32-bit integer.\<close>

definition toInt32 :: "jsnum \<Rightarrow> int" where
  "toInt32 x =
     (case x of
        Num r \<Rightarrow>
          (let t = (if r < 0 then - \<lfloor>- r\<rfloor> else \<lfloor>r\<rfloor>);
               m = t mod 2 ^ 32
           in if 2 ^ 31 \<le> m then m - 2 ^ 32 else m)
      | _ \<Rightarrow> 0)"

text \<open>
  \<open>await nextTick()\<close> suspends the run and lets the host handle what is pending. The
  schedule \<open>host\<close> gives, for the suspension at each checkpoint, the events the host
  handles there, in order: clicks on Cancel and on the three Run buttons, and changes of
  the number field, which is never disabled and whose handler is
  \<open>setN(Number(e.target.value))\<close>. A click on a disabled button does nothing: Cancel
  is disabled while \<open>running\<close> is idle, the three Run buttons while it is not. Since
  \<open>cancel\<close> sets \<open>running\<close> to idle, a Run click that follows a Cancel click in
  the same suspension is accepted. The help toggle changes nothing of the state kept here.

  A Run click starts another run. \<open>click_runOne\<close> and \<open>click_runBoth\<close> are what the
  handlers \<open>runOne\<close> and \<open>runBoth\<close> do before the first trial of the run they start:
  \<open>reset()\<close>, which writes the shared token, \<open>setRunning\<close>, and the call of
  \<open>runSession\<close>. The trials, the progress reports and the outcome of that other run are
  not followed.
\<close>

datatype ui_event = ClickCancel | ClickRunOne kind | ClickRunBoth | ChangeN jsnum

definition click_runOne :: "kind \<Rightarrow> app \<Rightarrow> app" where
  "click_runOne k w =
     (let w1 = reset w;
          N = max 50 (toInt32 (app_n w));
          w2 = w1\<lparr>running := (if k = Focus then RunFocus else RunControl)\<rparr>
      in w2\<lparr>calls := calls w2 @ [(k, N, cancelRef w2)]\<rparr>)"

definition click_runBoth :: "app \<Rightarrow> app" where
  "click_runBoth w =
     (let w1 = reset w;
          N = max 50 (toInt32 (app_n w));
          w2 = w1\<lparr>running := RunBoth\<rparr>;
          w3 = w2\<lparr>liveMsg := ''Focus first'' @ [CHR 0xE2, CHR 0x80, CHR 0x94]
                                @ ''try to will Heads.''\<rparr>
      in w3\<lparr>calls := calls w3 @ [(Focus, N, cancelRef w3)]\<rparr>)"

fun handle :: "ui_event \<Rightarrow> app \<Rightarrow> app" where
  "handle ClickCancel w = (if running w = Idle then w else cancel w)"
| "handle (ClickRunOne k) w = (if running w \<noteq> Idle then w else click_runOne k w)"
| "handle ClickRunBoth w = (if running w \<noteq> Idle then w else click_runBoth w)"
| "handle (ChangeN x) w = w\<lparr>app_n := x\<rparr>"

definition nextTick :: "(int \<Rightarrow> ui_event list) \<Rightarrow> int \<Rightarrow> app \<Rightarrow> app" where
  "nextTick host i w = fold handle (host i) w"

fun kind_text :: "kind \<Rightarrow> string" where
  "kind_text Focus = ''Focus''"
| "kind_text Control = ''Control''"

text \<open>Characters outside ASCII are written as their UTF-8 bytes.\<close>

definition live_text :: "formatter \<Rightarrow> kind \<Rightarrow> int \<Rightarrow> int \<Rightarrow> int \<Rightarrow> string \<Rightarrow> string" where
  "live_text fm k i n hits rate =
     kind_text k @ '': '' @ showInt fm i @ ''/'' @ showInt fm n @ '' flips ''
       @ [CHR 0xE2, CHR 0x80, CHR 0xA2] @ '' Heads='' @ showInt fm hits
       @ '' ('' @ rate @ ''%)''"

text \<open>
  The loop of \<open>runSession\<close>, from trial \<open>i\<close> on, with the tally \<open>hits\<close> and the state
  \<open>s\<close> of the bit source \<open>next\<close>. \<open>iv\<close> is the throttling interval: 200 in
  \<open>src/App.jsx\<close>, 250 in the variant of \<open>vite.config.js\<close>. The \<open>throw\<close> is the left
  summand; on completion the loop gives the tally.
\<close>

function session_loop ::
  "formatter \<Rightarrow> int \<Rightarrow> ('s \<Rightarrow> nat \<times> 's) \<Rightarrow> (int \<Rightarrow> ui_event list) \<Rightarrow> kind \<Rightarrow> int \<Rightarrow> nat
     \<Rightarrow> int \<Rightarrow> int \<Rightarrow> 's \<Rightarrow> app \<Rightarrow> (js_error + int) \<times> app" where
  "session_loop fm iv next host k n ref i hits s w =
     (if i \<le> n then
        (let hits' = hits + int (fst (next s));
             s' = snd (next s)
         in if i mod iv = 0 \<or> i = n then
              (let w1 = w\<lparr>progress := js_div (Num (of_int i)) (Num (of_int n))\<rparr>;
                   rate = toFixed fm
                            (js_mul (js_div (Num (of_int hits')) (Num (of_int i))) (Num 100)) 2;
                   w2 = w1\<lparr>liveMsg := live_text fm k i n hits' rate\<rparr>;
                   w3 = nextTick host i w2
               in if heap w3 ref = Some True then (Inl (Error ''Cancelled''), w3)
                  else session_loop fm iv next host k n ref (i + 1) hits' s' w3)
            else session_loop fm iv next host k n ref (i + 1) hits' s' w)
      else (Inr hits, w))"
  by pat_completeness auto
termination
  by (relation "measure (\<lambda>(fm, iv, next, host, k, n, ref, i, hits, s, w). nat (n + 1 - i))") auto

declare session_loop.simps [simp del]

definition session_result_of :: "kind \<Rightarrow> int \<Rightarrow> int \<Rightarrow> session_result" where
  "session_result_of k n hits =
     (let (z, p) = zAndP (Num (of_int hits)) (Num (of_int n))
      in \<lparr>res_kind = k, res_n = n, res_hits = hits,
          res_rate = js_div (Num (of_int hits)) (Num (of_int n)), res_z = z, res_p = p\<rparr>)"

definition runSession ::
  "formatter \<Rightarrow> entropy \<Rightarrow> (int \<Rightarrow> ui_event list) \<Rightarrow> kind \<Rightarrow> int \<Rightarrow> nat \<Rightarrow> app
     \<Rightarrow> (js_error + session_result) \<times> app" where
  "runSession fm env host k n ref w =
     (let w0 = w\<lparr>calls := calls w @ [(k, n, ref)]\<rparr>;
          rng0 = makeBufferedRng default_chunkSize env
      in case session_loop fm 200 (flipBit default_chunkSize env) host k n ref 1 0 rng0 w0 of
           (Inl e, w') \<Rightarrow> (Inl e, w')
         | (Inr hits, w') \<Rightarrow> (Inr (session_result_of k n hits), w'))"

text \<open>\<open>runSession\<close> of the variant in \<open>vite.config.js\<close>: \<open>flip\<close> and an interval of 250.\<close>

definition runSession_ts ::
  "formatter \<Rightarrow> entropy \<Rightarrow> (int \<Rightarrow> ui_event list) \<Rightarrow> kind \<Rightarrow> int \<Rightarrow> nat \<Rightarrow> app
     \<Rightarrow> (js_error + session_result) \<times> app" where
  "runSession_ts fm env host k n ref w =
     (let w0 = w\<lparr>calls := calls w @ [(k, n, ref)]\<rparr>
      in case session_loop fm 250 (flip env) host k n ref 1 0 0 w0 of
           (Inl e, w') \<Rightarrow> (Inl e, w')
         | (Inr hits, w') \<Rightarrow> (Inr (session_result_of k n hits), w'))"

text \<open>\<open>String(e && e.message ? e.message : e)\<close> in the \<open>catch\<close> blocks.\<close>

fun error_text :: "js_error \<Rightarrow> string" where
  "error_text (Error m) = (if m \<noteq> [] then m else ''Error'')"

definition runOne :: "formatter \<Rightarrow> entropy \<Rightarrow> (int \<Rightarrow> ui_event list) \<Rightarrow> kind \<Rightarrow> app \<Rightarrow> app" where
  "runOne fm env host k w =
     (let w1 = reset w;
          N = max 50 (toInt32 (app_n w));
          w2 = w1\<lparr>running := (if k = Focus then RunFocus else RunControl)\<rparr>;
          w4 = (case runSession fm env host k N (cancelRef w2) w2 of
                  (Inr res, w3) \<Rightarrow> w3\<lparr>results := [res]\<rparr>
                | (Inl e, w3) \<Rightarrow> w3\<lparr>error := error_text e\<rparr>)
      in w4\<lparr>running := Idle\<rparr>)"

definition compare_text :: "formatter \<Rightarrow> comparison \<Rightarrow> string" where
  "compare_text fm c =
     ''Focus vs Control: '' @ [CHR 0xCE, CHR 0x94] @ ''=''
       @ toFixed fm (js_mul (cmp_diff c) (Num 100)) 2 @ '' pp, z='' @ toFixed fm (cmp_z c) 3
       @ '', p='' @ toExp fm (cmp_p c)"

text \<open>
  \<open>runBoth\<close>: the Focus run with its entropy and the schedule of its host, then the
  Control run with its own.
\<close>

definition runBoth ::
  "formatter \<Rightarrow> entropy \<Rightarrow> (int \<Rightarrow> ui_event list) \<Rightarrow> entropy \<Rightarrow> (int \<Rightarrow> ui_event list)
     \<Rightarrow> app \<Rightarrow> app" where
  "runBoth fm envF hostF envC hostC w =
     (let w1 = reset w;
          N = max 50 (toInt32 (app_n w));
          w2 = w1\<lparr>running := RunBoth\<rparr>;
          w3 = w2\<lparr>liveMsg := ''Focus first'' @ [CHR 0xE2, CHR 0x80, CHR 0x94]
                                @ ''try to will Heads.''\<rparr>;
          w9 = (case runSession fm envF hostF Focus N (cancelRef w3) w3 of
                  (Inl e, w4) \<Rightarrow> w4\<lparr>error := error_text e\<rparr>
                | (Inr focus, w4) \<Rightarrow>
                    (let w5 = w4\<lparr>progress := Num 0\<rparr>;
                         w6 = w5\<lparr>liveMsg := ''Now Control'' @ [CHR 0xE2, CHR 0x80, CHR 0x94]
                                               @ ''relax and let it be chance.''\<rparr>
                     in case runSession fm envC hostC Control N (cancelRef w6) w6 of
                          (Inl e, w7) \<Rightarrow> w7\<lparr>error := error_text e\<rparr>
                        | (Inr control, w7) \<Rightarrow>
                            (let w8 = w7\<lparr>results := [focus, control]\<rparr>;
                                 cmp = diffTest focus control
                             in w8\<lparr>compareLine := compare_text fm cmp\<rparr>)))
      in w9\<lparr>running := Idle\<rparr>)"

text \<open>A checkpoint of a run of \<open>n\<close> trials with interval \<open>iv\<close>.\<close>

definition checkpoint :: "int \<Rightarrow> int \<Rightarrow> int \<Rightarrow> bool" where
  "checkpoint iv n c = (1 \<le> c \<and> c \<le> n \<and> (c mod iv = 0 \<or> c = n))"

section \<open>Auxiliary definitions for the proofs and the examples\<close>

text \<open>The component state after the progress report of the checkpoint at trial \<open>i\<close>.\<close>

definition report :: "formatter \<Rightarrow> kind \<Rightarrow> int \<Rightarrow> int \<Rightarrow> int \<Rightarrow> app \<Rightarrow> app" where
  "report fm k n i hits w =
     w\<lparr>progress := js_div (Num (of_int i)) (Num (of_int n)),
       liveMsg := live_text fm k i n hits
                    (toFixed fm (js_mul (js_div (Num (of_int hits)) (Num (of_int i))) (Num 100)) 2)\<rparr>"

text \<open>
  The invariant of the buffered source after \<open>k\<close> calls: the buffer holds one chunk of
  the host's bytes, and the chunks before it together with the bytes read from it are
  exactly the first \<open>k\<close> bytes the host handed out.
\<close>

definition rng_inv :: "nat \<Rightarrow> entropy \<Rightarrow> nat \<Rightarrow> rng \<Rightarrow> bool" where
  "rng_inv c env k r =
     (buf r = map (\<lambda>i. source_byte env (drawn r - c + i)) [0..<c]
      \<and> c \<le> drawn r \<and> drawn r - c + idx r = k \<and> idx r \<le> c \<and> c dvd drawn r
      \<and> (0 < k \<longrightarrow> 0 < idx r))"

text \<open>
  For an environment, the one in which \<open>crypto.getRandomValues\<close> exists and delivers
  the very bytes the first one hands out.
\<close>

definition secure_twin :: "entropy \<Rightarrow> entropy" where
  "secure_twin env = env\<lparr>crypto_available := True, getRandomValues := source_byte env\<rparr>"

text \<open>
  The trial count the handlers pass on, and the states they hand to \<open>runSession\<close>:
  at the start of \<open>runOne\<close>, at the start of \<open>runBoth\<close>, and between its two runs.
\<close>

definition clampN :: "app \<Rightarrow> int" where
  "clampN w = max 50 (toInt32 (app_n w))"

definition runOne_start :: "kind \<Rightarrow> app \<Rightarrow> app" where
  "runOne_start k w = (reset w)\<lparr>running := (if k = Focus then RunFocus else RunControl)\<rparr>"

definition runBoth_start :: "app \<Rightarrow> app" where
  "runBoth_start w =
     (reset w)\<lparr>running := RunBoth,
               liveMsg := ''Focus first'' @ [CHR 0xE2, CHR 0x80, CHR 0x94]
                            @ ''try to will Heads.''\<rparr>"

definition runBoth_between :: "app \<Rightarrow> app" where
  "runBoth_between w =
     w\<lparr>progress := Num 0,
       liveMsg := ''Now Control'' @ [CHR 0xE2, CHR 0x80, CHR 0x94]
                    @ ''relax and let it be chance.''\<rparr>"

text \<open>
  The schedule of a host that only clicks Cancel, at the checkpoints \<open>clicks\<close> names;
  the schedule with a Cancel click and then a Run Control click in the suspension at
  trial 200 and nothing else.
\<close>

definition cancel_clicks :: "(int \<Rightarrow> bool) \<Rightarrow> int \<Rightarrow> ui_event list" where
  "cancel_clicks clicks i = (if clicks i then [ClickCancel] else [])"

definition cancel_then_run :: "int \<Rightarrow> ui_event list" where
  "cancel_then_run i = (if i = 200 then [ClickCancel, ClickRunOne Control] else [])"

text \<open>
  What every handler and every run leaves alone, whatever the host does: the token and
  the emptiness of the result list, of the comparison line and of the error message; the
  calls of \<open>runSession\<close> added to the history all pass a count between 50 and
  \<open>2\<^sup>3\<^sup>1 - 1\<close> and the token.
\<close>

definition clamped_args :: "app \<Rightarrow> (kind \<times> int \<times> nat) list \<Rightarrow> bool" where
  "clamped_args w xs =
     list_all (\<lambda>c. 50 \<le> fst (snd c) \<and> fst (snd c) \<le> 2147483647 \<and> snd (snd c) = cancelRef w) xs"

definition gen_frame :: "app \<Rightarrow> app \<Rightarrow> bool" where
  "gen_frame w w' =
     (cancelRef w' = cancelRef w
      \<and> (\<exists>xs. calls w' = calls w @ xs \<and> clamped_args w xs)
      \<and> (results w = [] \<longrightarrow> results w' = [])
      \<and> (compareLine w = [] \<longrightarrow> compareLine w' = [])
      \<and> (error w = [] \<longrightarrow> error w' = []))"

text \<open>Concrete inputs for the examples.\<close>

definition plain_formatter :: formatter where
  "plain_formatter =
     \<lparr>toFixed = (\<lambda>x d. ''0''), toExponential = (\<lambda>x d. ''0''), showInt = (\<lambda>i. ''0'')\<rparr>"

definition env_secure :: entropy where
  "env_secure =
     \<lparr>crypto_available = True, getRandomValues = (\<lambda>i. if even i then 3 else 128),
      mathRandom = (\<lambda>i. 0)\<rparr>"

definition env_degraded :: entropy where
  "env_degraded =
     \<lparr>crypto_available = False, getRandomValues = (\<lambda>i. 0),
      mathRandom = (\<lambda>i. if even i then 3 / 256 else 1 / 2)\<rparr>"

definition all_heads :: session_result where
  "all_heads =
     \<lparr>res_kind = Focus, res_n = 50, res_hits = 50, res_rate = Num 1,
      res_z = fst (zAndP (Num 50) (Num 50)), res_p = snd (zAndP (Num 50) (Num 50))\<rparr>"

definition all_tails :: session_result where
  "all_tails =
     \<lparr>res_kind = Control, res_n = 50, res_hits = 0, res_rate = Num 0,
      res_z = fst (zAndP (Num 0) (Num 50)), res_p = snd (zAndP (Num 0) (Num 50))\<rparr>"

definition selftest_A :: session_result where
  "selftest_A =
     \<lparr>res_kind = Focus, res_n = 1000, res_hits = 540, res_rate = Num 0.54,
      res_z = Num 0, res_p = Num 1\<rparr>"

definition selftest_B :: session_result where
  "selftest_B =
     \<lparr>res_kind = Control, res_n = 1000, res_hits = 500, res_rate = Num 0.50,
      res_z = Num 0, res_p = Num 1\<rparr>"

section \<open>The statistics\<close>

lemma normalCdf_Num: "0 \<le> x \<Longrightarrow> normalCdf (Num x) = Num (cdf_spec x)"
proof -
  assume x: "0 \<le> x"
  have "0 \<le> 0.2316419 * x" using x by simp
  then have d: "1 + 0.2316419 * x \<noteq> 0" by linarith
  show ?thesis using d
    by (simp add: normalCdf_def cdf_spec_def Let_def js_sub_def power2_eq_square js_pow_def)
qed

lemma zAndP_Num:
  "0 < n \<Longrightarrow> zAndP (Num hits) (Num n) =
     (Num (oneSample_z_spec hits n),
      js_mul (Num 2) (js_sub (Num 1) (normalCdf (Num \<bar>oneSample_z_spec hits n\<bar>))))"
  by (simp add: zAndP_def Let_def js_sub_def oneSample_z_spec_def)

lemma js_abs_not_negative: "\<not> js_lt (js_abs z) (Num 0)"
  by (cases z) simp_all

lemma normalCdf_PosInf: "normalCdf PosInf = Num 1"
  by (simp add: normalCdf_def Let_def js_sub_def signed_inf_def js_pow_def)

lemma normalCdf_NaN: "normalCdf NaN = NaN"
  by (simp add: normalCdf_def Let_def js_sub_def signed_inf_def js_pow_def)

lemma diffTest_Num:
  assumes "0 < res_n a" "0 < res_n b" "res_rate a = Num ra" "res_rate b = Num rb"
  shows "diffTest a b =
    \<lparr>cmp_diff = Num (ra - rb),
     cmp_z = js_div (Num (ra - rb))
               (js_sqrt (Num (ra * (1 - ra) / of_int (res_n a) + rb * (1 - rb) / of_int (res_n b)))),
     cmp_p = js_mul (Num 2) (js_sub (Num 1) (normalCdf (js_abs (js_div (Num (ra - rb))
               (js_sqrt (Num (ra * (1 - ra) / of_int (res_n a)
                              + rb * (1 - rb) / of_int (res_n b))))))))\<rparr>"
  using assms by (simp add: diffTest_def Let_def js_sub_def)

lemma diffTest_degenerate_equal:
  assumes "0 < res_n a" "0 < res_n b" "res_rate a = Num r" "res_rate b = Num r" "r = 0 \<or> r = 1"
  shows "cmp_z (diffTest a b) = NaN" "cmp_p (diffTest a b) = NaN"
  using assms by (auto simp add: diffTest_Num normalCdf_NaN js_sub_def)

lemma diffTest_degenerate_mixed:
  assumes "0 < res_n a" "0 < res_n b" "res_rate a = Num ra" "res_rate b = Num rb"
    "ra = 0 \<or> ra = 1" "rb = 0 \<or> rb = 1" "ra \<noteq> rb"
  shows "cmp_z (diffTest a b) = signed_inf (ra < rb)" "cmp_p (diffTest a b) = Num 0"
  using assms by (auto simp add: diffTest_Num normalCdf_PosInf js_sub_def signed_inf_def)

lemma js_abs_cases:
  "z \<noteq> NaN \<Longrightarrow> js_ge (js_abs z) (Num 0)" "(js_abs z = NaN) = (z = NaN)"
  by (cases z; simp)+

lemma diffTest_regular:
  assumes "0 < res_n a" "0 < res_n b" "res_rate a = Num ra" "res_rate b = Num rb"
    and "0 < ra * (1 - ra) / of_int (res_n a) + rb * (1 - rb) / of_int (res_n b)"
  shows "cmp_z (diffTest a b)
           = Num ((ra - rb) / twoSample_se_spec ra (of_int (res_n a)) rb (of_int (res_n b)))"
    and "cmp_p (diffTest a b)
           = Num (2 * (1 - cdf_spec \<bar>(ra - rb)
                   / twoSample_se_spec ra (of_int (res_n a)) rb (of_int (res_n b))\<bar>))"
proof -
  let ?rad = "ra * (1 - ra) / of_int (res_n a) + rb * (1 - rb) / of_int (res_n b)"
  let ?se = "twoSample_se_spec ra (of_int (res_n a)) rb (of_int (res_n b))"
  have se: "js_sqrt (Num ?rad) = Num ?se" "?se \<noteq> 0"
    using assms(5) by (simp_all add: twoSample_se_spec_def)
  from diffTest_Num[OF assms(1-4)] se
  show z: "cmp_z (diffTest a b) = Num ((ra - rb) / ?se)" by simp
  have "normalCdf (Num \<bar>(ra - rb) / ?se\<bar>) = Num (cdf_spec \<bar>(ra - rb) / ?se\<bar>)"
    by (rule normalCdf_Num) simp
  with diffTest_Num[OF assms(1-4)] se
  show "cmp_p (diffTest a b) = Num (2 * (1 - cdf_spec \<bar>(ra - rb) / ?se\<bar>))"
    by (simp add: js_sub_def)
qed

lemma diffTest_negative_radicand:
  assumes "0 < res_n a" "0 < res_n b" "res_rate a = Num ra" "res_rate b = Num rb"
    and "ra * (1 - ra) / of_int (res_n a) + rb * (1 - rb) / of_int (res_n b) < 0"
  shows "cmp_z (diffTest a b) = NaN" "cmp_p (diffTest a b) = NaN"
  using diffTest_Num[OF assms(1-4)] assms(5) by (simp_all add: normalCdf_NaN js_sub_def)

text \<open>
  Claim C1. For a finite tally \<open>hits\<close> and a finite \<open>n > 0\<close>, \<open>zAndP\<close> returns the finite
  \<open>z = (hits - 0.5 n) / sqrt (0.25 n)\<close> and \<open>p = 2 (1 - normalCdf \<bar>z\<bar>)\<close>, with
  \<open>normalCdf\<close> the program's approximation.
\<close>

theorem zAndP_one_sample:
  "0 < n \<Longrightarrow>
     zAndP (Num hits) (Num n) =
       (Num (oneSample_z_spec hits n),
        js_mul (Num 2) (js_sub (Num 1) (normalCdf (Num \<bar>oneSample_z_spec hits n\<bar>))))
     \<and> snd (zAndP (Num hits) (Num n)) = Num (2 * (1 - cdf_spec \<bar>oneSample_z_spec hits n\<bar>))"
  by (simp add: zAndP_Num normalCdf_Num js_sub_def)

theorem zAndP_one_sample_witness:
  "(0::real) < 4
   \<and> zAndP (Num 3) (Num 4) = (Num 1, js_mul (Num 2) (js_sub (Num 1) (normalCdf (Num 1))))"
  using zAndP_one_sample [of 4 3] by (simp add: oneSample_z_spec_def)

text \<open>
  Claim C2, as the code has it. For a real \<open>x \<ge> 0\<close> the approximation returns
  \<open>1 - d * poly\<close> with \<open>t = 1 / (1 + 0.2316419 x)\<close>,
  \<open>d = exp (- x\<^sup>2 / 2) / sqrt (2 pi)\<close> and the polynomial with the five coefficients
  of Abramowitz and Stegun. Both callers pass \<open>Math.abs(z)\<close>. That argument is never
  negative; it is \<open>\<ge> 0\<close> whenever \<open>z\<close> is a number, finite or infinite, and it is
  \<open>NaN\<close> exactly when \<open>z\<close> is \<open>NaN\<close>. The one-sample caller with \<open>n > 0\<close>
  and the two-sample caller with a positive radicand pass a real \<open>\<ge> 0\<close>.
\<close>

theorem normalCdf_abramowitz_stegun:
  "(0 \<le> x \<longrightarrow> normalCdf (Num x) = Num (cdf_spec x))
   \<and> snd (zAndP h m) = js_mul (Num 2) (js_sub (Num 1) (normalCdf (js_abs (fst (zAndP h m)))))
   \<and> cmp_p (diffTest a b)
       = js_mul (Num 2) (js_sub (Num 1) (normalCdf (js_abs (cmp_z (diffTest a b)))))
   \<and> \<not> js_lt (js_abs z) (Num 0)
   \<and> (z \<noteq> NaN \<longrightarrow> js_ge (js_abs z) (Num 0))
   \<and> (js_abs z = NaN) = (z = NaN)
   \<and> js_abs (Num r) = Num \<bar>r\<bar> \<and> 0 \<le> \<bar>r\<bar>
   \<and> (0 < n \<longrightarrow>
         js_abs (fst (zAndP (Num hits) (Num n))) = Num \<bar>oneSample_z_spec hits n\<bar>)
   \<and> (0 < res_n a \<and> 0 < res_n b \<and> res_rate a = Num ra \<and> res_rate b = Num rb
        \<and> 0 < ra * (1 - ra) / of_int (res_n a) + rb * (1 - rb) / of_int (res_n b) \<longrightarrow>
         js_abs (cmp_z (diffTest a b))
           = Num \<bar>(ra - rb) / twoSample_se_spec ra (of_int (res_n a)) rb (of_int (res_n b))\<bar>)"
proof -
  have "js_abs (cmp_z (diffTest a b))
           = Num \<bar>(ra - rb) / twoSample_se_spec ra (of_int (res_n a)) rb (of_int (res_n b))\<bar>"
    if "0 < res_n a" "0 < res_n b" "res_rate a = Num ra" "res_rate b = Num rb"
      "0 < ra * (1 - ra) / of_int (res_n a) + rb * (1 - rb) / of_int (res_n b)"
    using diffTest_regular(1)[OF that] by simp
  moreover have "snd (zAndP h m)
      = js_mul (Num 2) (js_sub (Num 1) (normalCdf (js_abs (fst (zAndP h m)))))"
    by (simp add: zAndP_def Let_def)
  moreover have "cmp_p (diffTest a b)
       = js_mul (Num 2) (js_sub (Num 1) (normalCdf (js_abs (cmp_z (diffTest a b)))))"
    by (simp add: diffTest_def Let_def)
  moreover have "0 < n \<longrightarrow>
         js_abs (fst (zAndP (Num hits) (Num n))) = Num \<bar>oneSample_z_spec hits n\<bar>"
    by (simp add: zAndP_Num)
  ultimately show ?thesis
    using js_abs_cases[of z] by (simp add: normalCdf_Num js_abs_not_negative)
qed

theorem normalCdf_abramowitz_stegun_witness:
  "(0::real) \<le> 1 \<and> normalCdf (Num 1) = Num (cdf_spec 1)
   \<and> NegInf \<noteq> NaN \<and> js_ge (js_abs NegInf) (Num 0)
   \<and> (0::real) < 4 \<and> js_abs (fst (zAndP (Num 1) (Num 4))) = Num 1
   \<and> 0 < res_n selftest_B \<and> 0 < res_n selftest_A
   \<and> res_rate selftest_B = Num 0.5 \<and> res_rate selftest_A = Num 0.54
   \<and> (0::real) < 0.5 * (1 - 0.5) / 1000 + 0.54 * (1 - 0.54) / 1000
   \<and> js_abs (cmp_z (diffTest selftest_B selftest_A))
        = Num (0.04 / twoSample_se_spec 0.5 1000 0.54 1000)"
proof -
  have f: "res_n selftest_A = 1000" "res_rate selftest_A = Num 0.54"
    "res_n selftest_B = 1000" "res_rate selftest_B = Num 0.5"
    by (simp_all add: selftest_A_def selftest_B_def)
  have se: "0 < twoSample_se_spec 0.5 1000 0.54 1000"
    by (simp add: twoSample_se_spec_def)
  then have ab: "\<bar>0.04 / twoSample_se_spec 0.5 1000 0.54 1000\<bar>
      = 0.04 / twoSample_se_spec 0.5 1000 0.54 1000" by simp
  note T = normalCdf_abramowitz_stegun [where x = 1 and z = NegInf and n = 4 and hits = 1
      and a = selftest_B and b = selftest_A and ra = "0.5" and rb = "0.54"]
  from T have t1: "normalCdf (Num 1) = Num (cdf_spec 1)" by simp
  from T have t2: "js_ge (js_abs NegInf) (Num 0)" by simp
  from T have t3: "js_abs (fst (zAndP (Num 1) (Num 4))) = Num 1"
    by (simp add: oneSample_z_spec_def)
  from T have "js_abs (cmp_z (diffTest selftest_B selftest_A))
        = Num \<bar>(0.5 - 0.54) / twoSample_se_spec 0.5 1000 0.54 1000\<bar>"
    by (simp add: f)
  then have t4: "js_abs (cmp_z (diffTest selftest_B selftest_A))
        = Num (0.04 / twoSample_se_spec 0.5 1000 0.54 1000)"
    using se by (simp add: abs_divide[symmetric] del: abs_divide)
  from t1 t2 t3 t4 show ?thesis by (simp add: f)
qed

text \<open>
  Claim C2 as stated fails in its last part: for two results of all heads \<open>diffTest\<close>
  computes \<open>z = NaN\<close> and calls \<open>normalCdf\<close> with \<open>Math.abs(NaN)\<close>, which is
  \<open>NaN\<close> and not \<open>\<ge> 0\<close>.
\<close>

theorem caller_passes_NaN_counterexample:
  "cmp_z (diffTest all_heads all_heads) = NaN
   \<and> js_abs (cmp_z (diffTest all_heads all_heads)) = NaN
   \<and> \<not> js_ge (js_abs (cmp_z (diffTest all_heads all_heads))) (Num 0)
   \<and> cmp_p (diffTest all_heads all_heads)
       = js_mul (Num 2) (js_sub (Num 1) (normalCdf NaN))"
proof -
  have z: "cmp_z (diffTest all_heads all_heads) = NaN"
    by (rule diffTest_degenerate_equal(1)[of all_heads all_heads 1])
       (simp_all add: all_heads_def)
  have "cmp_p (diffTest all_heads all_heads)
       = js_mul (Num 2) (js_sub (Num 1) (normalCdf (js_abs (cmp_z (diffTest all_heads all_heads)))))"
    by (simp add: diffTest_def Let_def)
  with z show ?thesis by simp
qed

text \<open>
  Claim C3. For two results with finite rates and \<open>n > 0\<close>, \<open>diffTest\<close> returns
  \<open>diff = a.rate - b.rate\<close>, \<open>z = diff / se\<close> with
  \<open>se = sqrt (a.rate (1 - a.rate) / a.n + b.rate (1 - b.rate) / b.n)\<close>, and
  \<open>p = 2 (1 - normalCdf \<bar>z\<bar>)\<close>. When the radicand is positive these are the real
  numbers \<open>z = diff / se\<close> and \<open>p = 2 (1 - cdf \<bar>diff / se\<bar>)\<close> of the
  specification, so the two orders of the same pair give opposite \<open>z\<close> and the same
  \<open>p\<close>. A negative radicand gives \<open>NaN\<close> for both, and a radicand of zero the
  values of the degenerate case.
\<close>

theorem diffTest_two_sample:
  assumes "0 < res_n a" and "0 < res_n b" and "res_rate a = Num ra" and "res_rate b = Num rb"
  shows "cmp_diff (diffTest a b) = Num (ra - rb)
    \<and> cmp_z (diffTest a b) =
        js_div (Num (ra - rb))
          (js_sqrt (Num (ra * (1 - ra) / of_int (res_n a) + rb * (1 - rb) / of_int (res_n b))))
    \<and> cmp_p (diffTest a b) =
        js_mul (Num 2) (js_sub (Num 1) (normalCdf (js_abs (cmp_z (diffTest a b)))))
    \<and> (0 \<le> ra \<and> ra \<le> 1 \<and> 0 \<le> rb \<and> rb \<le> 1 \<longrightarrow>
         js_sqrt (Num (ra * (1 - ra) / of_int (res_n a) + rb * (1 - rb) / of_int (res_n b)))
           = Num (twoSample_se_spec ra (of_int (res_n a)) rb (of_int (res_n b))))
    \<and> (0 < ra * (1 - ra) / of_int (res_n a) + rb * (1 - rb) / of_int (res_n b) \<longrightarrow>
         cmp_z (diffTest a b)
           = Num ((ra - rb) / twoSample_se_spec ra (of_int (res_n a)) rb (of_int (res_n b)))
         \<and> cmp_p (diffTest a b)
           = Num (2 * (1 - cdf_spec \<bar>(ra - rb)
                   / twoSample_se_spec ra (of_int (res_n a)) rb (of_int (res_n b))\<bar>)))
    \<and> (ra * (1 - ra) / of_int (res_n a) + rb * (1 - rb) / of_int (res_n b) < 0 \<longrightarrow>
         cmp_z (diffTest a b) = NaN \<and> cmp_p (diffTest a b) = NaN)
    \<and> (ra * (1 - ra) / of_int (res_n a) + rb * (1 - rb) / of_int (res_n b) = 0 \<longrightarrow>
         cmp_z (diffTest a b) = (if ra = rb then NaN else signed_inf (ra < rb))
         \<and> cmp_p (diffTest a b) = (if ra = rb then NaN else Num 0))"
proof -
  let ?rad = "ra * (1 - ra) / of_int (res_n a) + rb * (1 - rb) / of_int (res_n b)"
  have nn: "\<not> ?rad < 0" if "0 \<le> ra" "ra \<le> 1" "0 \<le> rb" "rb \<le> 1"
  proof -
    have "0 \<le> ?rad"
      using that assms(1,2)
      by (intro add_nonneg_nonneg divide_nonneg_nonneg mult_nonneg_nonneg) simp_all
    then show ?thesis by simp
  qed
  have old: "cmp_diff (diffTest a b) = Num (ra - rb)
    \<and> cmp_z (diffTest a b) = js_div (Num (ra - rb)) (js_sqrt (Num ?rad))
    \<and> cmp_p (diffTest a b) =
        js_mul (Num 2) (js_sub (Num 1) (normalCdf (js_abs (cmp_z (diffTest a b)))))
    \<and> (0 \<le> ra \<and> ra \<le> 1 \<and> 0 \<le> rb \<and> rb \<le> 1 \<longrightarrow>
         js_sqrt (Num ?rad) = Num (twoSample_se_spec ra (of_int (res_n a)) rb (of_int (res_n b))))"
    using assms nn by (auto simp add: diffTest_Num twoSample_se_spec_def)
  have zero: "cmp_z (diffTest a b) = (if ra = rb then NaN else signed_inf (ra < rb))
         \<and> cmp_p (diffTest a b) = (if ra = rb then NaN else Num 0)" if "?rad = 0"
    using diffTest_Num[OF assms] that
    by (simp add: normalCdf_NaN normalCdf_PosInf js_sub_def signed_inf_def)
  from old zero diffTest_regular[OF assms] diffTest_negative_radicand[OF assms]
  show ?thesis by (intro conjI impI) simp_all
qed

theorem diffTest_two_sample_witness:
  "0 < res_n selftest_A \<and> 0 < res_n selftest_B
   \<and> res_rate selftest_A = Num 0.54 \<and> res_rate selftest_B = Num 0.5
   \<and> cmp_diff (diffTest selftest_A selftest_B) = Num 0.04
   \<and> (0::real) \<le> 0.54 \<and> (0.54::real) \<le> 1 \<and> (0::real) \<le> 0.5 \<and> (0.5::real) \<le> 1
   \<and> js_sqrt (Num (0.54 * (1 - 0.54) / of_int (res_n selftest_A)
                       + 0.5 * (1 - 0.5) / of_int (res_n selftest_B)))
        = Num (twoSample_se_spec 0.54 1000 0.5 1000)
   \<and> (0::real) < 0.54 * (1 - 0.54) / 1000 + 0.5 * (1 - 0.5) / 1000
   \<and> cmp_z (diffTest selftest_A selftest_B) = Num (0.04 / twoSample_se_spec 0.54 1000 0.5 1000)
   \<and> cmp_p (diffTest selftest_A selftest_B)
        = Num (2 * (1 - cdf_spec (0.04 / twoSample_se_spec 0.54 1000 0.5 1000)))
   \<and> cmp_z (diffTest selftest_B selftest_A) = Num (- 0.04 / twoSample_se_spec 0.5 1000 0.54 1000)
   \<and> cmp_p (diffTest selftest_B selftest_A)
        = Num (2 * (1 - cdf_spec (0.04 / twoSample_se_spec 0.5 1000 0.54 1000)))
   \<and> cmp_p (diffTest selftest_B selftest_A) = cmp_p (diffTest selftest_A selftest_B)"
proof -
  have f: "res_n selftest_A = 1000" "res_rate selftest_A = Num 0.54"
    "res_n selftest_B = 1000" "res_rate selftest_B = Num 0.5"
    by (simp_all add: selftest_A_def selftest_B_def)
  have se: "0 < twoSample_se_spec 0.54 1000 0.5 1000" "0 < twoSample_se_spec 0.5 1000 0.54 1000"
    "twoSample_se_spec 0.5 1000 0.54 1000 = twoSample_se_spec 0.54 1000 0.5 1000"
    by (simp_all add: twoSample_se_spec_def)
  have m: "(0.54 - 0.5 :: real) = 0.04" "(0.5 - 0.54 :: real) = - 0.04" by simp_all
  have ab: "\<bar>0.04 / twoSample_se_spec 0.54 1000 0.5 1000\<bar>
      = 0.04 / twoSample_se_spec 0.54 1000 0.5 1000"
    "\<bar>- 0.04 / twoSample_se_spec 0.5 1000 0.54 1000\<bar>
      = 0.04 / twoSample_se_spec 0.5 1000 0.54 1000"
    using se(1,2) by simp_all
  have hA: "0 < res_n selftest_A" and hB: "0 < res_n selftest_B" by (simp_all add: f)
  note AB = diffTest_two_sample [of selftest_A selftest_B "0.54" "0.5", OF hA hB f(2) f(4)]
  note BA = diffTest_two_sample [of selftest_B selftest_A "0.5" "0.54", OF hB hA f(4) f(2)]
  have d: "cmp_diff (diffTest selftest_A selftest_B) = Num 0.04"
    using AB [THEN conjunct1] by simp
  have unit: "(0::real) \<le> 0.54 \<and> (0.54::real) \<le> 1 \<and> (0::real) \<le> 0.5 \<and> (0.5::real) \<le> 1"
    by simp
  have s: "js_sqrt (Num (0.54 * (1 - 0.54) / of_int (res_n selftest_A)
                       + 0.5 * (1 - 0.5) / of_int (res_n selftest_B)))
        = Num (twoSample_se_spec 0.54 1000 0.5 1000)"
    using AB [THEN conjunct2, THEN conjunct2, THEN conjunct2, THEN conjunct1, THEN mp, OF unit]
    by (simp only: f of_int_numeral)
  have radAB: "(0::real) < 0.54 * (1 - 0.54) / of_int (res_n selftest_A)
             + 0.5 * (1 - 0.5) / of_int (res_n selftest_B)" by (simp add: f)
  have radBA: "(0::real) < 0.5 * (1 - 0.5) / of_int (res_n selftest_B)
             + 0.54 * (1 - 0.54) / of_int (res_n selftest_A)" by (simp add: f)
  note rAB = AB [THEN conjunct2, THEN conjunct2, THEN conjunct2, THEN conjunct2, THEN conjunct1,
      THEN mp, OF radAB]
  note rBA = BA [THEN conjunct2, THEN conjunct2, THEN conjunct2, THEN conjunct2, THEN conjunct1,
      THEN mp, OF radBA]
  have z1: "cmp_z (diffTest selftest_A selftest_B)
      = Num ((0.54 - 0.5) / twoSample_se_spec 0.54 1000 0.5 1000)"
    using rAB [THEN conjunct1] by (simp only: f of_int_numeral)
  have p1: "cmp_p (diffTest selftest_A selftest_B)
      = Num (2 * (1 - cdf_spec \<bar>(0.54 - 0.5) / twoSample_se_spec 0.54 1000 0.5 1000\<bar>))"
    using rAB [THEN conjunct2] by (simp only: f of_int_numeral)
  have z2: "cmp_z (diffTest selftest_B selftest_A)
      = Num ((0.5 - 0.54) / twoSample_se_spec 0.5 1000 0.54 1000)"
    using rBA [THEN conjunct1] by (simp only: f of_int_numeral)
  have p2: "cmp_p (diffTest selftest_B selftest_A)
      = Num (2 * (1 - cdf_spec \<bar>(0.5 - 0.54) / twoSample_se_spec 0.5 1000 0.54 1000\<bar>))"
    using rBA [THEN conjunct2] by (simp only: f of_int_numeral)
  have p1': "cmp_p (diffTest selftest_A selftest_B)
      = Num (2 * (1 - cdf_spec (0.04 / twoSample_se_spec 0.54 1000 0.5 1000)))"
    by (simp only: p1 m ab)
  have p2': "cmp_p (diffTest selftest_B selftest_A)
      = Num (2 * (1 - cdf_spec (0.04 / twoSample_se_spec 0.5 1000 0.54 1000)))"
    by (simp only: p2 m ab)
  have z1': "cmp_z (diffTest selftest_A selftest_B) = Num (0.04 / twoSample_se_spec 0.54 1000 0.5 1000)"
    by (simp only: z1 m)
  have z2': "cmp_z (diffTest selftest_B selftest_A) = Num (- 0.04 / twoSample_se_spec 0.5 1000 0.54 1000)"
    by (simp only: z2 m)
  show ?thesis
    by (simp only: f d s z1' z2' p1' p2') (simp add: twoSample_se_spec_def)
qed

text \<open>
  Claim C7, as the code has it. When both rates are 0 or 1 the standard error is zero and
  \<open>z\<close> is not finite: \<open>NaN\<close> when the rates are equal, an infinity when they differ.
  \<open>p\<close> is \<open>NaN\<close> in the first case and is rendered as the string \<open>NaN\<close>; in the
  second case \<open>p\<close> is the finite number 0. Nothing is thrown: \<open>diffTest\<close> and \<open>toExp\<close>
  are total and have no error result.
\<close>

theorem diffTest_zero_standard_error:
  assumes "0 < res_n a" and "0 < res_n b" and "res_rate a = Num ra" and "res_rate b = Num rb"
    and "ra = 0 \<or> ra = 1" and "rb = 0 \<or> rb = 1"
  shows "js_sqrt (Num (ra * (1 - ra) / of_int (res_n a) + rb * (1 - rb) / of_int (res_n b))) = Num 0
    \<and> \<not> isFinite (cmp_z (diffTest a b))
    \<and> (ra = rb \<longrightarrow> cmp_z (diffTest a b) = NaN \<and> cmp_p (diffTest a b) = NaN
                    \<and> toExp fm (cmp_p (diffTest a b)) = ''NaN'')
    \<and> (ra \<noteq> rb \<longrightarrow> cmp_z (diffTest a b) = signed_inf (ra < rb)
                    \<and> cmp_p (diffTest a b) = Num 0)"
proof (cases "ra = rb")
  case True
  with assms diffTest_degenerate_equal [of a b ra] show ?thesis
    by (auto simp add: toExp_def)
next
  case False
  with assms diffTest_degenerate_mixed [of a b ra rb] show ?thesis
    by (auto simp add: signed_inf_def)
qed

theorem diffTest_zero_standard_error_witness:
  "0 < res_n all_heads \<and> 0 < res_n all_tails
   \<and> res_rate all_heads = Num 1 \<and> res_rate all_tails = Num 0
   \<and> ((1::real) = 0 \<or> (1::real) = 1) \<and> ((0::real) = 0 \<or> (0::real) = 1)
   \<and> cmp_z (diffTest all_heads all_heads) = NaN
   \<and> toExp plain_formatter (cmp_p (diffTest all_heads all_heads)) = ''NaN''
   \<and> (1::real) \<noteq> 0
   \<and> cmp_z (diffTest all_heads all_tails) = PosInf
   \<and> cmp_z (diffTest all_tails all_heads) = NegInf"
proof -
  have f: "res_n all_heads = 50" "res_rate all_heads = Num 1"
    "res_n all_tails = 50" "res_rate all_tails = Num 0"
    by (simp_all add: all_heads_def all_tails_def)
  show ?thesis
    using diffTest_zero_standard_error [of all_heads all_heads 1 1 plain_formatter]
      diffTest_zero_standard_error [of all_heads all_tails 1 0 plain_formatter]
      diffTest_zero_standard_error [of all_tails all_heads 0 1 plain_formatter]
    by (simp add: f toExp_def signed_inf_def)
qed

text \<open>
  Claim C7 as stated fails: all heads against all tails has standard error zero and an
  infinite \<open>z\<close>, and its \<open>p\<close> is the finite number 0.
\<close>

theorem diffTest_finite_p_counterexample:
  "\<not> isFinite (cmp_z (diffTest all_heads all_tails))
   \<and> cmp_p (diffTest all_heads all_tails) = Num 0
   \<and> isFinite (cmp_p (diffTest all_heads all_tails))"
proof -
  have "cmp_z (diffTest all_heads all_tails) = signed_inf ((1::real) < 0)"
    by (rule diffTest_degenerate_mixed) (simp_all add: all_heads_def all_tails_def)
  moreover have "cmp_p (diffTest all_heads all_tails) = Num 0"
    by (rule diffTest_degenerate_mixed [of all_heads all_tails 1 0])
       (simp_all add: all_heads_def all_tails_def)
  ultimately show ?thesis by (simp add: signed_inf_def)
qed

section \<open>The random bit source\<close>

lemma refill_source:
  "refill c env r = \<lparr>buf = map (\<lambda>i. source_byte env (drawn r + i)) [0..<c], idx = 0, drawn = drawn r + c\<rparr>"
  by (simp add: refill_def source_byte_def Let_def)

lemma rng_inv_init: "rng_inv c env 0 (makeBufferedRng c env)"
  by (simp add: rng_inv_def makeBufferedRng_def refill_source)

lemma rng_inv_step:
  assumes "0 < c" "rng_inv c env k r"
  shows "rng_inv c env (Suc k) (snd (flipBit c env r))"
    and "fst (flipBit c env r) = unat (source_byte env k AND 1)"
  using assms by (auto simp add: rng_inv_def flipBit_def refill_source Let_def)

lemma rng_inv_after: "0 < c \<Longrightarrow> rng_inv c env k (rng_after c env k)"
  by (induction k) (simp_all add: rng_inv_init rng_inv_step)

lemma bit_no_source: "0 < c \<Longrightarrow> bit_no c env k = unat (source_byte env k AND 1)"
  by (simp add: bit_no_def rng_inv_step(2)[OF _ rng_inv_after])

lemma rng_after_cursor:
  assumes "0 < c"
  shows "idx (rng_after c env (Suc k)) = k mod c + 1"
    and "drawn (rng_after c env (Suc k)) = (k div c + 1) * c"
    and "length (buf (rng_after c env k)) = c"
proof -
  let ?r = "rng_after c env (Suc k)"
  have inv: "rng_inv c env (Suc k) ?r" using assms by (rule rng_inv_after)
  then obtain q where q: "drawn ?r = c * q" by (auto simp: rng_inv_def dvd_def)
  from inv have a: "c \<le> drawn ?r" "drawn ?r - c + idx ?r = Suc k" "idx ?r \<le> c" "0 < idx ?r"
    by (auto simp: rng_inv_def)
  from a(1) q assms have q1: "1 \<le> q" by (cases q) auto
  then obtain q' where q': "q = Suc q'" by (cases q) auto
  have k: "k = q' * c + (idx ?r - 1)" using a q q' by (simp add: algebra_simps)
  have lt: "idx ?r - 1 < c" using a assms by simp
  define m where "m = idx ?r - 1"
  have km: "k = q' * c + m" using k by (simp add: m_def)
  have mlt: "m < c" using lt by (simp add: m_def)
  have "(q' * c + m) div c = q'" using mlt by simp
  then have kdiv: "k div c = q'" by (simp only: km)
  have "(q' * c + m) mod c = m" using mlt by simp
  then have kmod: "k mod c = m" by (simp only: km)
  have i: "idx ?r = m + 1" using a(4) by (simp add: m_def)
  have d: "drawn ?r = (q' + 1) * c" using q q' by simp
  show "idx ?r = k mod c + 1" by (simp only: kmod i)
  show "drawn ?r = (k div c + 1) * c" by (simp only: kdiv d)
  show "length (buf (rng_after c env k))= c"
    using rng_inv_after[OF assms, of env k] by (simp add: rng_inv_def)
qed

lemma flipBit_in_buffer:
  "idx r < length (buf r) \<Longrightarrow> flipBit c env r = (unat (buf r ! idx r AND 1), r\<lparr>idx := idx r + 1\<rparr>)"
  by (simp add: flipBit_def Let_def)

lemma flipBit_at_end:
  "0 < c \<Longrightarrow> length (buf r) \<le> idx r \<Longrightarrow>
     flipBit c env r = (unat (source_byte env (drawn r) AND 1), (refill c env r)\<lparr>idx := 1\<rparr>)"
  by (simp add: flipBit_def Let_def refill_source)

lemma rng_positions_distinct:
  assumes "0 < c" "j \<noteq> k"
  shows "(drawn (rng_after c env (Suc j)), idx (rng_after c env (Suc j)))
           \<noteq> (drawn (rng_after c env (Suc k)), idx (rng_after c env (Suc k)))"
proof
  assume eq: "(drawn (rng_after c env (Suc j)), idx (rng_after c env (Suc j)))
           = (drawn (rng_after c env (Suc k)), idx (rng_after c env (Suc k)))"
  then have "(j div c + 1) * c = (k div c + 1) * c" "j mod c + 1 = k mod c + 1"
    using assms(1) by (simp_all add: rng_after_cursor del: rng_after.simps)
  then have "j div c = k div c" "j mod c = k mod c" using assms(1) by simp_all
  then have "j = k" by (metis div_mult_mod_eq)
  with assms(2) show False by simp
qed

text \<open>
  Claim C4. With a chunk of \<open>c\<close> bytes, \<open>0 < c \<le> 65536\<close> (65536 by default), call number \<open>k + 1\<close>
  returns the lowest bit of byte \<open>k\<close> of the host's stream: it reads position
  \<open>k mod c\<close> of chunk \<open>k div c\<close> and leaves the cursor one further. A call that
  finds the cursor inside the buffer reads the byte under it; a call that finds it at the
  end refills the buffer with the next \<open>c\<close> bytes and reads the first. No two calls
  read the same position of the same chunk. \<open>flip\<close> of the variant draws one fresh
  byte for each call.
\<close>

theorem buffered_rng_no_reuse:
  assumes "0 < c" and "c \<le> 65536"
  shows "bit_no c env k = unat (source_byte env k AND 1)
    \<and> idx (rng_after c env (Suc k)) = k mod c + 1
    \<and> drawn (rng_after c env (Suc k)) = (k div c + 1) * c
    \<and> length (buf (rng_after c env k)) = c
    \<and> (j \<noteq> k \<longrightarrow>
         (drawn (rng_after c env (Suc j)), idx (rng_after c env (Suc j)))
           \<noteq> (drawn (rng_after c env (Suc k)), idx (rng_after c env (Suc k))))
    \<and> (idx r < length (buf r) \<longrightarrow>
         flipBit c env r = (unat (buf r ! idx r AND 1), r\<lparr>idx := idx r + 1\<rparr>))
    \<and> (length (buf r) \<le> idx r \<longrightarrow>
         flipBit c env r = (unat (source_byte env (drawn r) AND 1), (refill c env r)\<lparr>idx := 1\<rparr>)
         \<and> length (buf (refill c env r)) = c \<and> drawn (refill c env r) = drawn r + c)
    \<and> default_chunkSize = 65536
    \<and> (crypto_available env \<longrightarrow> flip env pos = (unat (getRandomValues env pos AND 1), pos + 1))"
  using assms(1) rng_positions_distinct[OF assms(1), of j k env]
  by (simp add: bit_no_source rng_after_cursor flipBit_in_buffer flipBit_at_end
      default_chunkSize_def flip_def refill_source del: rng_after.simps)

theorem buffered_rng_no_reuse_witness:
  "(0::nat) < 2 \<and> (2::nat) \<le> 65536 \<and> bit_no 2 env_secure 4 = 1
   \<and> idx (rng_after 2 env_secure (Suc 4)) = 1 \<and> drawn (rng_after 2 env_secure (Suc 4)) = 6
   \<and> (1::nat) \<noteq> 4
   \<and> (drawn (rng_after 2 env_secure (Suc 1)), idx (rng_after 2 env_secure (Suc 1)))
        \<noteq> (drawn (rng_after 2 env_secure (Suc 4)), idx (rng_after 2 env_secure (Suc 4)))
   \<and> idx \<lparr>buf = [3, 128], idx = 0, drawn = 2\<rparr> < length (buf \<lparr>buf = [3, 128], idx = 0, drawn = 2\<rparr>)
   \<and> flipBit 2 env_secure \<lparr>buf = [3, 128], idx = 0, drawn = 2\<rparr>
        = (1, \<lparr>buf = [3, 128], idx = 1, drawn = 2\<rparr>)
   \<and> length (buf \<lparr>buf = [3, 128], idx = 2, drawn = 2\<rparr>) \<le> idx \<lparr>buf = [3, 128], idx = 2, drawn = 2\<rparr>
   \<and> fst (flipBit 2 env_secure \<lparr>buf = [3, 128], idx = 2, drawn = 2\<rparr>) = 1
   \<and> drawn (snd (flipBit 2 env_secure \<lparr>buf = [3, 128], idx = 2, drawn = 2\<rparr>)) = 4
   \<and> crypto_available env_secure \<and> flip env_secure 4 = (1, 5)"
proof -
  have s: "source_byte env_secure 4 = 3" "source_byte env_secure 2 = 3"
    "crypto_available env_secure" "getRandomValues env_secure 4 = 3"
    by (simp_all add: source_byte_def env_secure_def)
  have two: "(0::nat) < 2" "(2::nat) \<le> 65536" by simp_all
  note T = buffered_rng_no_reuse [OF two, of env_secure 4 1 "\<lparr>buf = [3, 128], idx = 0, drawn = 2\<rparr>" 4]
  note U = buffered_rng_no_reuse [OF two, of env_secure 4 1 "\<lparr>buf = [3, 128], idx = 2, drawn = 2\<rparr>" 4]
  from T have p1: "bit_no 2 env_secure 4 = 1" by (simp add: s del: rng_after.simps)
  from T have p2: "idx (rng_after 2 env_secure (Suc 4)) = 1" by (simp del: rng_after.simps)
  from T have p3: "drawn (rng_after 2 env_secure (Suc 4)) = 6" by (simp del: rng_after.simps)
  from T have "(1::nat) \<noteq> 4 \<longrightarrow>
      (drawn (rng_after 2 env_secure (Suc 1)), idx (rng_after 2 env_secure (Suc 1)))
        \<noteq> (drawn (rng_after 2 env_secure (Suc 4)), idx (rng_after 2 env_secure (Suc 4)))"
    by (elim conjE)
  then have p4: "(drawn (rng_after 2 env_secure (Suc 1)), idx (rng_after 2 env_secure (Suc 1)))
        \<noteq> (drawn (rng_after 2 env_secure (Suc 4)), idx (rng_after 2 env_secure (Suc 4)))"
    by (elim impE) simp_all
  from T have p5: "flipBit 2 env_secure \<lparr>buf = [3, 128], idx = 0, drawn = 2\<rparr>
        = (1, \<lparr>buf = [3, 128], idx = 1, drawn = 2\<rparr>)"
    by (simp del: rng_after.simps)
  from U have p6: "flipBit 2 env_secure \<lparr>buf = [3, 128], idx = 2, drawn = 2\<rparr>
        = (1, (refill 2 env_secure \<lparr>buf = [3, 128], idx = 2, drawn = 2\<rparr>)\<lparr>idx := 1\<rparr>)"
    and p7: "drawn (refill 2 env_secure \<lparr>buf = [3, 128], idx = 2, drawn = 2\<rparr>) = 4"
    by (simp_all add: s del: rng_after.simps)
  from T have p8: "flip env_secure 4 = (1, 5)" by (simp add: s del: rng_after.simps)
  from p1 p2 p3 p4 p5 p8 show ?thesis
    by (simp add: p6 p7 s del: rng_after.simps)
qed

section \<open>The session loop\<close>

lemma nextTick_cancel_clicks:
  "nextTick (cancel_clicks clicks) i w = (if clicks i \<and> running w \<noteq> Idle then cancel w else w)"
  by (simp add: nextTick_def cancel_clicks_def)

lemma loop_unfold:
  "session_loop fm iv nx host kd n ref i hits s w =
     (if i \<le> n then
        if i mod iv = 0 \<or> i = n then
          if heap (nextTick host i (report fm kd n i (hits + int (fst (nx s))) w)) ref = Some True
          then (Inl (Error ''Cancelled''), nextTick host i (report fm kd n i (hits + int (fst (nx s))) w))
          else session_loop fm iv nx host kd n ref (i + 1) (hits + int (fst (nx s))) (snd (nx s))
                 (nextTick host i (report fm kd n i (hits + int (fst (nx s))) w))
        else session_loop fm iv nx host kd n ref (i + 1) (hits + int (fst (nx s))) (snd (nx s)) w
      else (Inr hits, w))"
  by (subst session_loop.simps) (simp only: Let_def report_def)

lemma tick_frame:
  "calls (nextTick (cancel_clicks clicks) i (report fm kd n i h w)) = calls w"
  "cancelRef (nextTick (cancel_clicks clicks) i (report fm kd n i h w)) = cancelRef w"
  "results (nextTick (cancel_clicks clicks) i (report fm kd n i h w)) = results w"
  "compareLine (nextTick (cancel_clicks clicks) i (report fm kd n i h w)) = compareLine w"
  "error (nextTick (cancel_clicks clicks) i (report fm kd n i h w)) = error w"
  "app_n (nextTick (cancel_clicks clicks) i (report fm kd n i h w)) = app_n w"
  "progress (nextTick (cancel_clicks clicks) i (report fm kd n i h w)) = js_div (Num (of_int i)) (Num (of_int n))"
  by (simp_all add: nextTick_cancel_clicks cancel_def report_def)

lemma loop_frame:
  "session_loop fm iv nx (cancel_clicks clicks) kd n ref i hits s w = (out, w') \<Longrightarrow>
     calls w' = calls w \<and> cancelRef w' = cancelRef w \<and> results w' = results w
     \<and> compareLine w' = compareLine w \<and> error w' = error w \<and> app_n w' = app_n w"
proof (induction "nat (n + 1 - i)" arbitrary: i hits s w)
  case 0
  then have "\<not> i \<le> n" by simp
  with "0.prems" show ?case by (simp add: loop_unfold[of fm iv nx "cancel_clicks clicks" kd n ref i])
next
  case (Suc m)
  then have le: "i \<le> n" and m: "m = nat (n + 1 - (i + 1))" by simp_all
  note IH = Suc.hyps(1)[OF m]
  show ?case
  proof (cases "i mod iv = 0 \<or> i = n")
    case False
    with le Suc.prems have "session_loop fm iv nx (cancel_clicks clicks) kd n ref (i + 1) (hits + int (fst (nx s))) (snd (nx s)) w = (out, w')"
      by (simp add: loop_unfold[of fm iv nx "cancel_clicks clicks" kd n ref i])
    then show ?thesis by (rule IH)
  next
    case cp: True
    let ?w3 = "nextTick (cancel_clicks clicks) i (report fm kd n i (hits + int (fst (nx s))) w)"
    show ?thesis
    proof (cases "heap ?w3 ref = Some True")
      case True
      with le cp Suc.prems have "w' = ?w3"
        by (simp add: loop_unfold[of fm iv nx "cancel_clicks clicks" kd n ref i])
      then show ?thesis by (simp add: tick_frame)
    next
      case False
      with le cp Suc.prems have "session_loop fm iv nx (cancel_clicks clicks) kd n ref (i + 1) (hits + int (fst (nx s))) (snd (nx s)) ?w3 = (out, w')"
        by (simp add: loop_unfold[of fm iv nx "cancel_clicks clicks" kd n ref i])
      from IH[OF this] show ?thesis by (simp add: tick_frame)
    qed
  qed
qed

lemma loop_done: "\<not> i \<le> n \<Longrightarrow> session_loop fm iv nx host kd n ref i hits s w = (Inr hits, w)"
  by (subst loop_unfold) simp

lemma loop_skip:
  "i \<le> n \<Longrightarrow> \<not> (i mod iv = 0 \<or> i = n) \<Longrightarrow>
     session_loop fm iv nx host kd n ref i hits s w =
     session_loop fm iv nx host kd n ref (i + 1) (hits + int (fst (nx s))) (snd (nx s)) w"
  by (subst loop_unfold) simp

lemma loop_throw:
  "i \<le> n \<Longrightarrow> i mod iv = 0 \<or> i = n \<Longrightarrow>
     heap (nextTick host i (report fm kd n i (hits + int (fst (nx s))) w)) ref = Some True \<Longrightarrow>
     session_loop fm iv nx host kd n ref i hits s w =
     (Inl (Error ''Cancelled''), nextTick host i (report fm kd n i (hits + int (fst (nx s))) w))"
  by (subst loop_unfold) simp

lemma loop_next:
  "i \<le> n \<Longrightarrow> i mod iv = 0 \<or> i = n \<Longrightarrow>
     heap (nextTick host i (report fm kd n i (hits + int (fst (nx s))) w)) ref \<noteq> Some True \<Longrightarrow>
     session_loop fm iv nx host kd n ref i hits s w =
     session_loop fm iv nx host kd n ref (i + 1) (hits + int (fst (nx s))) (snd (nx s))
       (nextTick host i (report fm kd n i (hits + int (fst (nx s))) w))"
  by (subst loop_unfold) simp

lemma tick_heap_report: "heap (report fm kd n i h w) = heap w" "running (report fm kd n i h w) = running w"
  "cancelRef (report fm kd n i h w) = cancelRef w"
  by (simp_all add: report_def)

lemma tick_keeps_flag: "heap w ref = Some True \<Longrightarrow> heap (nextTick (cancel_clicks clicks) i w) ref = Some True"
  by (simp add: nextTick_cancel_clicks cancel_def)

lemma tick_flag_cases:
  "heap (nextTick (cancel_clicks clicks) i w) (cancelRef w) \<noteq> Some True \<Longrightarrow>
     nextTick (cancel_clicks clicks) i w = w \<and> \<not> (clicks i \<and> running w \<noteq> Idle)"
  by (auto simp add: nextTick_cancel_clicks cancel_def split: if_splits)

lemma loop_cancelled:
  assumes "ref = cancelRef w" "heap w ref = Some True \<or> (running w \<noteq> Idle \<and> clicks c)"
    "i \<le> c" "c \<le> n" "c mod iv = 0 \<or> c = n"
  shows "\<exists>k w'. session_loop fm iv nx (cancel_clicks clicks) kd n ref i hits s w = (Inl (Error ''Cancelled''), w')
           \<and> i \<le> k \<and> k \<le> c \<and> (k mod iv = 0 \<or> k = n)
           \<and> progress w' = js_div (Num (of_int k)) (Num (of_int n)) \<and> heap w' ref = Some True"
  using assms
proof (induction "nat (c + 1 - i)" arbitrary: i hits s w)
  case 0
  then show ?case by simp
next
  case (Suc m)
  then have le: "i \<le> n" and m: "i < c \<Longrightarrow> m = nat (c + 1 - (i + 1))" by simp_all
  let ?h = "hits + int (fst (nx s))"
  let ?w3 = "nextTick (cancel_clicks clicks) i (report fm kd n i ?h w)"
  show ?case
  proof (cases "i mod iv = 0 \<or> i = n")
    case cp: True
    show ?thesis
    proof (cases "heap ?w3 ref = Some True")
      case True
      have p: "progress ?w3 = js_div (Num (of_int i)) (Num (of_int n))" by (rule tick_frame)
      have run: "session_loop fm iv nx (cancel_clicks clicks) kd n ref i hits s w = (Inl (Error ''Cancelled''), ?w3)"
        by (rule loop_throw[where nx=nx and s=s and hits=hits and w=w and fm=fm and kd=kd and host="cancel_clicks clicks" and ref=ref, OF le cp True])
      show ?thesis
        by (rule exI[of _ i], rule exI[of _ ?w3]) (use run True cp Suc.prems(3) p in simp)
    next
      case nf: False
      with Suc.prems(1) have nf': "heap (nextTick (cancel_clicks clicks) i (report fm kd n i ?h w)) (cancelRef (report fm kd n i ?h w)) \<noteq> Some True"
        by (simp add: tick_heap_report)
      from tick_flag_cases[OF nf'] have same: "?w3 = report fm kd n i ?h w"
        and nc: "\<not> (clicks i \<and> running w \<noteq> Idle)" by (simp_all add: tick_heap_report)
      from nf same have hw: "heap w ref \<noteq> Some True" by (simp add: tick_heap_report)
      with Suc.prems(2) have rc: "running w \<noteq> Idle" "clicks c" by auto
      with nc have "i \<noteq> c" by auto
      with Suc.prems(3) have lt: "i < c" by simp
      then have lt': "i + 1 \<le> c" by simp
      have a1: "ref = cancelRef ?w3" using Suc.prems(1) by (simp add: tick_frame)
      have a2: "heap ?w3 ref = Some True \<or> (running ?w3 \<noteq> Idle \<and> clicks c)"
        using rc same by (simp add: tick_heap_report)
      from Suc.hyps(1)[OF m[OF lt] a1 a2 lt' Suc.prems(4) Suc.prems(5), of ?h "snd (nx s)"]
      obtain k w' where kwc: "session_loop fm iv nx (cancel_clicks clicks) kd n ref (i + 1) ?h (snd (nx s)) ?w3 = (Inl (Error ''Cancelled''), w')
        \<and> i + 1 \<le> k \<and> k \<le> c \<and> (k mod iv = 0 \<or> k = n)
        \<and> progress w' = js_div (Num (of_int k)) (Num (of_int n)) \<and> heap w' ref = Some True"
        by (elim exE)
      from kwc have kw: "session_loop fm iv nx (cancel_clicks clicks) kd n ref (i + 1) ?h (snd (nx s)) ?w3 = (Inl (Error ''Cancelled''), w')"
        "i + 1 \<le> k" "k \<le> c" "k mod iv = 0 \<or> k = n"
        "progress w' = js_div (Num (of_int k)) (Num (of_int n))" "heap w' ref = Some True"
        by simp_all
      from kw(2) have ik: "i \<le> k" by simp
      from loop_next[where nx=nx and s=s and hits=hits and w=w and fm=fm and kd=kd and host="cancel_clicks clicks" and ref=ref, OF le cp nf] kw(1) have "session_loop fm iv nx (cancel_clicks clicks) kd n ref i hits s w = (Inl (Error ''Cancelled''), w')"
        by (simp only:)
      with ik kw(3-6) show ?thesis
        by - (rule exI[of _ k], rule exI[of _ w'], simp)
    qed
  next
    case ncp: False
    with Suc.prems(4,5) have "i \<noteq> c" by auto
    with Suc.prems(3) have lt: "i < c" by simp
    then have lt': "i + 1 \<le> c" by simp
    from Suc.hyps(1)[OF m[OF lt] Suc.prems(1) Suc.prems(2) lt' Suc.prems(4) Suc.prems(5), of ?h "snd (nx s)"]
    obtain k w' where kwc: "session_loop fm iv nx (cancel_clicks clicks) kd n ref (i + 1) ?h (snd (nx s)) w = (Inl (Error ''Cancelled''), w')
        \<and> i + 1 \<le> k \<and> k \<le> c \<and> (k mod iv = 0 \<or> k = n)
        \<and> progress w' = js_div (Num (of_int k)) (Num (of_int n)) \<and> heap w' ref = Some True"
        by (elim exE)
      from kwc have kw: "session_loop fm iv nx (cancel_clicks clicks) kd n ref (i + 1) ?h (snd (nx s)) w = (Inl (Error ''Cancelled''), w')"
        "i + 1 \<le> k" "k \<le> c" "k mod iv = 0 \<or> k = n"
        "progress w' = js_div (Num (of_int k)) (Num (of_int n))" "heap w' ref = Some True"
        by simp_all
    from kw(2) have ik: "i \<le> k" by simp
    from loop_skip[where nx=nx and s=s and hits=hits and w=w and fm=fm and kd=kd and host="cancel_clicks clicks" and ref=ref, OF le ncp] kw(1) have "session_loop fm iv nx (cancel_clicks clicks) kd n ref i hits s w = (Inl (Error ''Cancelled''), w')"
      by (simp only:)
    with ik kw(3-6) show ?thesis
      by - (rule exI[of _ k], rule exI[of _ w'], simp)
  qed
qed

lemma loop_completed:
  "session_loop fm iv nx (cancel_clicks clicks) kd n ref i hits s w = (Inr h, w') \<Longrightarrow> ref = cancelRef w \<Longrightarrow>
     heap w' = heap w \<and> running w' = running w"
proof (induction "nat (n + 1 - i)" arbitrary: i hits s w)
  case 0
  then have "\<not> i \<le> n" by simp
  from loop_done[where nx=nx and s=s and hits=hits and w=w and fm=fm and kd=kd and host="cancel_clicks clicks" and ref=ref and iv=iv, OF this] "0.prems"(1) show ?case by simp
next
  case (Suc m)
  then have le: "i \<le> n" and m: "m = nat (n + 1 - (i + 1))" by simp_all
  note IH = Suc.hyps(1)[OF m]
  let ?h = "hits + int (fst (nx s))"
  let ?w3 = "nextTick (cancel_clicks clicks) i (report fm kd n i ?h w)"
  show ?case
  proof (cases "i mod iv = 0 \<or> i = n")
    case False
    from loop_skip[where nx=nx and s=s and hits=hits and w=w and fm=fm and kd=kd and host="cancel_clicks clicks" and ref=ref, OF le False] Suc.prems(1)
    have "session_loop fm iv nx (cancel_clicks clicks) kd n ref (i + 1) ?h (snd (nx s)) w = (Inr h, w')"
      by (simp only:)
    from IH[OF this Suc.prems(2)] show ?thesis .
  next
    case cp: True
    have nf: "heap ?w3 ref \<noteq> Some True"
    proof
      assume "heap ?w3 ref = Some True"
      from loop_throw[where nx=nx and s=s and hits=hits and w=w and fm=fm and kd=kd and host="cancel_clicks clicks" and ref=ref, OF le cp this] Suc.prems(1) show False by simp
    qed
    with Suc.prems(2) have nf': "heap (nextTick (cancel_clicks clicks) i (report fm kd n i ?h w)) (cancelRef (report fm kd n i ?h w)) \<noteq> Some True"
      by (simp add: tick_heap_report)
    from tick_flag_cases[OF nf'] have same: "?w3 = report fm kd n i ?h w" by simp
    from loop_next[where nx=nx and s=s and hits=hits and w=w and fm=fm and kd=kd and host="cancel_clicks clicks" and ref=ref, OF le cp nf] Suc.prems(1)
    have run: "session_loop fm iv nx (cancel_clicks clicks) kd n ref (i + 1) ?h (snd (nx s)) ?w3 = (Inr h, w')"
      by (simp only:)
    have "ref = cancelRef ?w3" using Suc.prems(2) by (simp add: tick_frame)
    from IH[OF run this] same show ?thesis by (simp add: tick_heap_report)
  qed
qed

lemma loop_no_click:
  assumes "\<And>c. i \<le> c \<Longrightarrow> c \<le> n \<Longrightarrow> \<not> clicks c" "heap w ref \<noteq> Some True"
  shows "\<exists>h w'. session_loop fm iv nx (cancel_clicks clicks) kd n ref i hits s w = (Inr h, w')
           \<and> heap w' = heap w \<and> running w' = running w"
  using assms
proof (induction "nat (n + 1 - i)" arbitrary: i hits s w)
  case 0
  then have "\<not> i \<le> n" by simp
  from loop_done[where nx=nx and s=s and hits=hits and w=w and fm=fm and kd=kd and host="cancel_clicks clicks" and ref=ref and iv=iv, OF this] show ?case by simp
next
  case (Suc m)
  then have le: "i \<le> n" and m: "m = nat (n + 1 - (i + 1))" by simp_all
  let ?h = "hits + int (fst (nx s))"
  let ?w3 = "nextTick (cancel_clicks clicks) i (report fm kd n i ?h w)"
  have nc: "\<not> clicks i" using Suc.prems(1)[of i] le by simp
  then have same: "?w3 = report fm kd n i ?h w" by (simp add: nextTick_cancel_clicks)
  have later: "\<And>c. i + 1 \<le> c \<Longrightarrow> c \<le> n \<Longrightarrow> \<not> clicks c" using Suc.prems(1) by simp
  show ?case
  proof (cases "i mod iv = 0 \<or> i = n")
    case False
    from Suc.hyps(1)[OF m later Suc.prems(2), of ?h "snd (nx s)"] loop_skip[where nx=nx and s=s and hits=hits and w=w and fm=fm and kd=kd and host="cancel_clicks clicks" and ref=ref, OF le False]
    show ?thesis by (simp only:)
  next
    case cp: True
    have nf: "heap ?w3 ref \<noteq> Some True" using Suc.prems(2) same by (simp add: tick_heap_report)
    have hr: "heap ?w3 = heap w" "running ?w3 = running w" using same by (simp_all add: tick_heap_report)
    from Suc.hyps(1)[OF m later nf, of ?h "snd (nx s)"] loop_next[where nx=nx and s=s and hits=hits and w=w and fm=fm and kd=kd and host="cancel_clicks clicks" and ref=ref, OF le cp nf] hr
    show ?thesis by (simp only:)
  qed
qed

lemma loop_flag_stays:
  "heap w ref = Some True \<Longrightarrow> session_loop fm iv nx (cancel_clicks clicks) kd n ref i hits s w = (out, w') \<Longrightarrow>
     heap w' ref = Some True"
proof (induction "nat (n + 1 - i)" arbitrary: i hits s w)
  case 0
  then have "\<not> i \<le> n" by simp
  from loop_done[where nx=nx and s=s and hits=hits and w=w and fm=fm and kd=kd and host="cancel_clicks clicks" and ref=ref and iv=iv, OF this] "0.prems" show ?case by simp
next
  case (Suc m)
  then have le: "i \<le> n" and m: "m = nat (n + 1 - (i + 1))" by simp_all
  let ?h = "hits + int (fst (nx s))"
  let ?w3 = "nextTick (cancel_clicks clicks) i (report fm kd n i ?h w)"
  have f3: "heap ?w3 ref = Some True" using Suc.prems(1) by (simp add: tick_keeps_flag tick_heap_report)
  show ?case
  proof (cases "i mod iv = 0 \<or> i = n")
    case False
    from loop_skip[where nx=nx and s=s and hits=hits and w=w and fm=fm and kd=kd and host="cancel_clicks clicks" and ref=ref, OF le False] Suc.prems(2)
    have "session_loop fm iv nx (cancel_clicks clicks) kd n ref (i + 1) ?h (snd (nx s)) w = (out, w')"
      by (simp only:)
    from Suc.hyps(1)[OF m Suc.prems(1) this] show ?thesis .
  next
    case cp: True
    from loop_throw[where nx=nx and s=s and hits=hits and w=w and fm=fm and kd=kd and host="cancel_clicks clicks" and ref=ref, OF le cp f3] Suc.prems(2) have "w' = ?w3" by simp
    with f3 show ?thesis by simp
  qed
qed

lemma runSession_frame:
  assumes "runSession fm env (cancel_clicks clicks) kd n ref w = (out, w')"
  shows "calls w' = calls w @ [(kd, n, ref)] \<and> cancelRef w' = cancelRef w \<and> results w' = results w
     \<and> compareLine w' = compareLine w \<and> error w' = error w \<and> app_n w' = app_n w"
proof -
  let ?w0 = "w\<lparr>calls := calls w @ [(kd, n, ref)]\<rparr>"
  obtain o1 w1 where l: "session_loop fm 200 (flipBit default_chunkSize env) (cancel_clicks clicks) kd n ref 1 0
      (makeBufferedRng default_chunkSize env) ?w0 = (o1, w1)"
    by (cases "session_loop fm 200 (flipBit default_chunkSize env) (cancel_clicks clicks) kd n ref 1 0
      (makeBufferedRng default_chunkSize env) ?w0")
  from assms l have "w' = w1" by (cases o1) (simp_all add: runSession_def Let_def)
  with loop_frame[OF l] show ?thesis by simp
qed

lemma runSession_cancelled:
  assumes "ref = cancelRef w" "heap w ref = Some True \<or> (running w \<noteq> Idle \<and> clicks c)"
    "checkpoint 200 n c"
  shows "\<exists>k w'. runSession fm env (cancel_clicks clicks) kd n ref w = (Inl (Error ''Cancelled''), w')
           \<and> checkpoint 200 n k \<and> k \<le> c
           \<and> progress w' = js_div (Num (of_int k)) (Num (of_int n)) \<and> heap w' ref = Some True"
proof -
  let ?w0 = "w\<lparr>calls := calls w @ [(kd, n, ref)]\<rparr>"
  have a1: "ref = cancelRef ?w0" using assms(1) by simp
  have a2: "heap ?w0 ref = Some True \<or> (running ?w0 \<noteq> Idle \<and> clicks c)" using assms(2) by simp
  from assms(3) have c: "1 \<le> c" "c \<le> n" "c mod 200 = 0 \<or> c = n" by (simp_all add: checkpoint_def)
  from loop_cancelled[where clicks=clicks and c=c and w="?w0" and ref=ref and i=1 and n=n and iv=200
      and fm=fm and nx="flipBit default_chunkSize env" and kd=kd and hits=0
      and s="makeBufferedRng default_chunkSize env", OF a1 a2 c]
  obtain k w' where kw: "session_loop fm 200 (flipBit default_chunkSize env) (cancel_clicks clicks) kd n ref 1 0
      (makeBufferedRng default_chunkSize env) ?w0 = (Inl (Error ''Cancelled''), w')
      \<and> 1 \<le> k \<and> k \<le> c \<and> (k mod 200 = 0 \<or> k = n)
      \<and> progress w' = js_div (Num (of_int k)) (Num (of_int n)) \<and> heap w' ref = Some True"
    by (elim exE)
  then have "runSession fm env (cancel_clicks clicks) kd n ref w = (Inl (Error ''Cancelled''), w')"
    by (simp add: runSession_def Let_def)
  moreover have "checkpoint 200 n k" using kw c by (simp add: checkpoint_def)
  ultimately show ?thesis using kw by - (rule exI[of _ k], rule exI[of _ w'], simp)
qed

lemma runSession_ts_cancelled:
  assumes "ref = cancelRef w" "heap w ref = Some True \<or> (running w \<noteq> Idle \<and> clicks c)"
    "checkpoint 250 n c"
  shows "\<exists>k w'. runSession_ts fm env (cancel_clicks clicks) kd n ref w = (Inl (Error ''Cancelled''), w')
           \<and> checkpoint 250 n k \<and> k \<le> c
           \<and> progress w' = js_div (Num (of_int k)) (Num (of_int n)) \<and> heap w' ref = Some True"
proof -
  let ?w0 = "w\<lparr>calls := calls w @ [(kd, n, ref)]\<rparr>"
  have a1: "ref = cancelRef ?w0" using assms(1) by simp
  have a2: "heap ?w0 ref = Some True \<or> (running ?w0 \<noteq> Idle \<and> clicks c)" using assms(2) by simp
  from assms(3) have c: "1 \<le> c" "c \<le> n" "c mod 250 = 0 \<or> c = n" by (simp_all add: checkpoint_def)
  from loop_cancelled[where clicks=clicks and c=c and w="?w0" and ref=ref and i=1 and n=n and iv=250
      and fm=fm and nx="flip env" and kd=kd and hits=0 and s=0, OF a1 a2 c]
  obtain k w' where kw: "session_loop fm 250 (flip env) (cancel_clicks clicks) kd n ref 1 0 0 ?w0
        = (Inl (Error ''Cancelled''), w')
      \<and> 1 \<le> k \<and> k \<le> c \<and> (k mod 250 = 0 \<or> k = n)
      \<and> progress w' = js_div (Num (of_int k)) (Num (of_int n)) \<and> heap w' ref = Some True"
    by (elim exE)
  then have "runSession_ts fm env (cancel_clicks clicks) kd n ref w = (Inl (Error ''Cancelled''), w')"
    by (simp add: runSession_ts_def Let_def)
  moreover have "checkpoint 250 n k" using kw c by (simp add: checkpoint_def)
  ultimately show ?thesis using kw by - (rule exI[of _ k], rule exI[of _ w'], simp)
qed

lemma runSession_completed:
  assumes "runSession fm env (cancel_clicks clicks) kd n ref w = (Inr res, w')" "ref = cancelRef w"
  shows "heap w' = heap w \<and> running w' = running w"
proof -
  let ?w0 = "w\<lparr>calls := calls w @ [(kd, n, ref)]\<rparr>"
  obtain o1 w1 where l: "session_loop fm 200 (flipBit default_chunkSize env) (cancel_clicks clicks) kd n ref 1 0
      (makeBufferedRng default_chunkSize env) ?w0 = (o1, w1)"
    by (cases "session_loop fm 200 (flipBit default_chunkSize env) (cancel_clicks clicks) kd n ref 1 0
      (makeBufferedRng default_chunkSize env) ?w0")
  from assms(1) l obtain h where o1: "o1 = Inr h" and w1: "w' = w1"
    by (cases o1) (simp_all add: runSession_def Let_def)
  have "ref = cancelRef ?w0" using assms(2) by simp
  from loop_completed[OF l[unfolded o1] this] w1 show ?thesis by simp
qed

lemma runSession_no_click:
  assumes "\<And>c. \<not> clicks c" "heap w ref \<noteq> Some True"
  shows "\<exists>res w'. runSession fm env (cancel_clicks clicks) kd n ref w = (Inr res, w')
           \<and> heap w' = heap w \<and> running w' = running w"
proof -
  let ?w0 = "w\<lparr>calls := calls w @ [(kd, n, ref)]\<rparr>"
  have nf: "heap ?w0 ref \<noteq> Some True" using assms(2) by simp
  from loop_no_click[where clicks=clicks and w="?w0" and ref=ref and i=1 and n=n and iv=200
      and fm=fm and nx="flipBit default_chunkSize env" and kd=kd and hits=0
      and s="makeBufferedRng default_chunkSize env", OF assms(1) nf]
  obtain h w' where hw: "session_loop fm 200 (flipBit default_chunkSize env) (cancel_clicks clicks) kd n ref 1 0
      (makeBufferedRng default_chunkSize env) ?w0 = (Inr h, w')
      \<and> heap w' = heap ?w0 \<and> running w' = running ?w0"
    by (elim exE)
  then have "runSession fm env (cancel_clicks clicks) kd n ref w = (Inr (session_result_of kd n h), w')"
    by (simp add: runSession_def Let_def)
  with hw show ?thesis
    by - (rule exI[of _ "session_result_of kd n h"], rule exI[of _ w'], simp)
qed

lemma runSession_flag_stays:
  assumes "heap w ref = Some True"
  shows "heap (snd (runSession fm env (cancel_clicks clicks) kd n ref w)) ref = Some True"
proof -
  let ?w0 = "w\<lparr>calls := calls w @ [(kd, n, ref)]\<rparr>"
  obtain o1 w1 where l: "session_loop fm 200 (flipBit default_chunkSize env) (cancel_clicks clicks) kd n ref 1 0
      (makeBufferedRng default_chunkSize env) ?w0 = (o1, w1)"
    by (cases "session_loop fm 200 (flipBit default_chunkSize env) (cancel_clicks clicks) kd n ref 1 0
      (makeBufferedRng default_chunkSize env) ?w0")
  have "heap ?w0 ref = Some True" using assms by simp
  from loop_flag_stays[OF this l] have "heap w1 ref = Some True" .
  moreover from l have "snd (runSession fm env (cancel_clicks clicks) kd n ref w) = w1"
    by (cases o1) (simp_all add: runSession_def Let_def)
  ultimately show ?thesis by simp
qed

lemma loop_error:
  "session_loop fm iv nx host kd n ref i hits s w = (Inl e, w') \<Longrightarrow> e = Error ''Cancelled''"
proof (induction "nat (n + 1 - i)" arbitrary: i hits s w)
  case 0
  then have "\<not> i \<le> n" by simp
  from loop_done[where nx=nx and s=s and hits=hits and w=w and fm=fm and kd=kd and host=host
      and ref=ref and iv=iv, OF this] "0.prems" show ?case by simp
next
  case (Suc m)
  then have le: "i \<le> n" and m: "m = nat (n + 1 - (i + 1))" by simp_all
  let ?h = "hits + int (fst (nx s))"
  let ?w3 = "nextTick host i (report fm kd n i ?h w)"
  show ?case
  proof (cases "i mod iv = 0 \<or> i = n")
    case False
    from loop_skip[where nx=nx and s=s and hits=hits and w=w and fm=fm and kd=kd and host=host
      and ref=ref, OF le False] Suc.prems
    have "session_loop fm iv nx host kd n ref (i + 1) ?h (snd (nx s)) w = (Inl e, w')"
      by (simp only:)
    from Suc.hyps(1)[OF m this] show ?thesis .
  next
    case cp: True
    show ?thesis
    proof (cases "heap ?w3 ref = Some True")
      case True
      from loop_throw[where nx=nx and s=s and hits=hits and w=w and fm=fm and kd=kd and host=host
        and ref=ref, OF le cp True] Suc.prems show ?thesis by simp
    next
      case False
      from loop_next[where nx=nx and s=s and hits=hits and w=w and fm=fm and kd=kd and host=host
        and ref=ref, OF le cp False] Suc.prems
      have "session_loop fm iv nx host kd n ref (i + 1) ?h (snd (nx s)) ?w3 = (Inl e, w')"
        by (simp only:)
      from Suc.hyps(1)[OF m this] show ?thesis .
    qed
  qed
qed

lemma runSession_error:
  assumes "runSession fm env host kd n ref w = (Inl e, w')"
  shows "e = Error ''Cancelled''"
proof -
  let ?w0 = "w\<lparr>calls := calls w @ [(kd, n, ref)]\<rparr>"
  obtain o1 w1 where l: "session_loop fm 200 (flipBit default_chunkSize env) host kd n ref 1 0
      (makeBufferedRng default_chunkSize env) ?w0 = (o1, w1)"
    by (cases "session_loop fm 200 (flipBit default_chunkSize env) host kd n ref 1 0
      (makeBufferedRng default_chunkSize env) ?w0")
  from assms l have "o1 = Inl e" by (cases o1) (simp_all add: runSession_def Let_def)
  with l have "session_loop fm 200 (flipBit default_chunkSize env) host kd n ref 1 0
      (makeBufferedRng default_chunkSize env) ?w0 = (Inl e, w1)" by simp
  then show ?thesis by (rule loop_error)
qed

lemma toInt32_range: "- 2147483648 \<le> toInt32 x \<and> toInt32 x \<le> 2147483647"
proof (cases x)
  case (Num r)
  define t where "t = (if r < 0 then - \<lfloor>- r\<rfloor> else \<lfloor>r\<rfloor>)"
  have b: "0 \<le> t mod 4294967296" "t mod 4294967296 < 4294967296" by simp_all
  have eq: "toInt32 x = (if 2147483648 \<le> t mod 4294967296 then t mod 4294967296 - 4294967296
                         else t mod 4294967296)"
    using Num by (simp add: toInt32_def Let_def t_def)
  show ?thesis
  proof (cases "2147483648 \<le> t mod 4294967296")
    case True
    with eq have "toInt32 x = t mod 4294967296 - 4294967296" by simp
    with b True show ?thesis by linarith
  next
    case False
    with eq have "toInt32 x = t mod 4294967296" by simp
    with b False show ?thesis by linarith
  qed
qed (simp_all add: toInt32_def)

lemma gen_frame_refl: "gen_frame w w"
  by (simp add: gen_frame_def clamped_args_def)

lemma gen_frame_trans:
  assumes "gen_frame w w1" "gen_frame w1 w2"
  shows "gen_frame w w2"
proof -
  from assms(1) obtain xs where xs: "calls w1 = calls w @ xs" "clamped_args w xs"
    by (auto simp add: gen_frame_def)
  from assms(2) obtain ys where ys: "calls w2 = calls w1 @ ys" "clamped_args w1 ys"
    by (auto simp add: gen_frame_def)
  from assms(1) have eq: "cancelRef w1 = cancelRef w"
    by (simp add: gen_frame_def)
  have "calls w2 = calls w @ (xs @ ys)" "clamped_args w (xs @ ys)"
    using xs ys eq by (simp_all add: clamped_args_def)
  then have "\<exists>zs. calls w2 = calls w @ zs \<and> clamped_args w zs" by blast
  with assms eq show ?thesis by (simp add: gen_frame_def)
qed

lemma gen_frame_handle: "gen_frame w (handle e w)"
  using toInt32_range[of "app_n w"]
  by (cases e)
     (simp_all add: gen_frame_def clamped_args_def cancel_def click_runOne_def click_runBoth_def
        reset_def Let_def)

lemma gen_frame_fold: "gen_frame w (fold handle es w)"
proof (induction es arbitrary: w)
  case Nil
  show ?case by (simp add: gen_frame_refl)
next
  case (Cons e es)
  from gen_frame_handle[of w e] Cons[of "handle e w"] show ?case
    by (simp add: gen_frame_trans)
qed

lemma gen_frame_report: "gen_frame w (report fm kd n i h w)"
  by (simp add: gen_frame_def report_def clamped_args_def)

lemma gen_frame_tick: "gen_frame w (nextTick host i (report fm kd n i h w))"
  unfolding nextTick_def
  by (rule gen_frame_trans[OF gen_frame_report gen_frame_fold])

lemma gen_frame_loop:
  "session_loop fm iv nx host kd n ref i hits s w = (out, w') \<Longrightarrow> gen_frame w w'"
proof (induction "nat (n + 1 - i)" arbitrary: i hits s w)
  case 0
  then have "\<not> i \<le> n" by simp
  from loop_done[where nx=nx and s=s and hits=hits and w=w and fm=fm and kd=kd and host=host
      and ref=ref and iv=iv, OF this] "0.prems" show ?case by (simp add: gen_frame_refl)
next
  case (Suc m)
  then have le: "i \<le> n" and m: "m = nat (n + 1 - (i + 1))" by simp_all
  let ?h = "hits + int (fst (nx s))"
  let ?w3 = "nextTick host i (report fm kd n i ?h w)"
  show ?case
  proof (cases "i mod iv = 0 \<or> i = n")
    case False
    from loop_skip[where nx=nx and s=s and hits=hits and w=w and fm=fm and kd=kd and host=host
      and ref=ref, OF le False] Suc.prems
    have "session_loop fm iv nx host kd n ref (i + 1) ?h (snd (nx s)) w = (out, w')"
      by (simp only:)
    from Suc.hyps(1)[OF m this] show ?thesis .
  next
    case cp: True
    have t: "gen_frame w ?w3" by (rule gen_frame_tick)
    show ?thesis
    proof (cases "heap ?w3 ref = Some True")
      case True
      from loop_throw[where nx=nx and s=s and hits=hits and w=w and fm=fm and kd=kd and host=host
        and ref=ref, OF le cp True] Suc.prems have "w' = ?w3" by simp
      with t show ?thesis by simp
    next
      case False
      from loop_next[where nx=nx and s=s and hits=hits and w=w and fm=fm and kd=kd and host=host
        and ref=ref, OF le cp False] Suc.prems
      have "session_loop fm iv nx host kd n ref (i + 1) ?h (snd (nx s)) ?w3 = (out, w')"
        by (simp only:)
      from gen_frame_trans[OF t Suc.hyps(1)[OF m this]] show ?thesis .
    qed
  qed
qed

lemma runSession_gen_frame:
  assumes "runSession fm env host kd n ref w = (out, w')"
  shows "cancelRef w' = cancelRef w"
    "\<exists>xs. calls w' = calls w @ (kd, n, ref) # xs \<and> clamped_args w xs"
    "results w = [] \<Longrightarrow> results w' = []" "compareLine w = [] \<Longrightarrow> compareLine w' = []"
    "error w = [] \<Longrightarrow> error w' = []"
proof -
  let ?w0 = "w\<lparr>calls := calls w @ [(kd, n, ref)]\<rparr>"
  obtain o1 w1 where l: "session_loop fm 200 (flipBit default_chunkSize env) host kd n ref 1 0
      (makeBufferedRng default_chunkSize env) ?w0 = (o1, w1)"
    by (cases "session_loop fm 200 (flipBit default_chunkSize env) host kd n ref 1 0
      (makeBufferedRng default_chunkSize env) ?w0")
  from assms l have "w' = w1" by (cases o1) (simp_all add: runSession_def Let_def)
  with gen_frame_loop[OF l] have g: "gen_frame ?w0 w'" by simp
  then obtain xs where xs: "calls w' = calls ?w0 @ xs" "clamped_args ?w0 xs"
    by (auto simp add: gen_frame_def)
  then have "calls w' = calls w @ (kd, n, ref) # xs \<and> clamped_args w xs"
    by (simp add: clamped_args_def)
  then show "\<exists>xs. calls w' = calls w @ (kd, n, ref) # xs \<and> clamped_args w xs" by blast
  from g show "cancelRef w' = cancelRef w"
    "results w = [] \<Longrightarrow> results w' = []" "compareLine w = [] \<Longrightarrow> compareLine w' = []"
    "error w = [] \<Longrightarrow> error w' = []"
    by (simp_all add: gen_frame_def)
qed

lemma cancel_then_run_flag:
  "heap (fold handle [ClickCancel, ClickRunOne k] w) (cancelRef w) = Some False"
  "cancelRef (fold handle [ClickCancel, ClickRunOne k] w) = cancelRef w"
  by (simp_all add: cancel_def click_runOne_def reset_def Let_def)

lemma loop_survives:
  assumes "\<And>c. i \<le> c \<Longrightarrow> c \<le> n \<Longrightarrow> host c = [] \<or> host c = [ClickCancel, ClickRunOne k]"
    and "heap w ref \<noteq> Some True" and "ref = cancelRef w"
  shows "\<exists>h w'. session_loop fm iv nx host kd n ref i hits s w = (Inr h, w')"
  using assms
proof (induction "nat (n + 1 - i)" arbitrary: i hits s w)
  case 0
  then have "\<not> i \<le> n" by simp
  from loop_done[where nx=nx and s=s and hits=hits and w=w and fm=fm and kd=kd and host=host
      and ref=ref and iv=iv, OF this] show ?case by simp
next
  case (Suc m)
  then have le: "i \<le> n" and m: "m = nat (n + 1 - (i + 1))" by simp_all
  let ?h = "hits + int (fst (nx s))"
  let ?w3 = "nextTick host i (report fm kd n i ?h w)"
  have later: "\<And>c. i + 1 \<le> c \<Longrightarrow> c \<le> n \<Longrightarrow> host c = [] \<or> host c = [ClickCancel, ClickRunOne k]"
    using Suc.prems(1) by simp
  show ?case
  proof (cases "i mod iv = 0 \<or> i = n")
    case False
    from Suc.hyps(1)[OF m later Suc.prems(2) Suc.prems(3), of ?h "snd (nx s)"]
      loop_skip[where nx=nx and s=s and hits=hits and w=w and fm=fm and kd=kd and host=host
        and ref=ref, OF le False]
    show ?thesis by (simp only:)
  next
    case cp: True
    have hi: "host i = [] \<or> host i = [ClickCancel, ClickRunOne k]"
      using Suc.prems(1)[of i] le by simp
    have r: "cancelRef (report fm kd n i ?h w) = cancelRef w" "heap (report fm kd n i ?h w) = heap w"
      by (simp_all add: report_def)
    have nf: "heap ?w3 ref \<noteq> Some True" and cr: "ref = cancelRef ?w3"
    proof -
      from hi show "heap ?w3 ref \<noteq> Some True"
      proof
        assume "host i = []"
        then show ?thesis using Suc.prems(2) by (simp add: nextTick_def r)
      next
        assume e: "host i = [ClickCancel, ClickRunOne k]"
        have "heap ?w3 (cancelRef (report fm kd n i ?h w)) = Some False"
          unfolding nextTick_def e by (rule cancel_then_run_flag)
        then show ?thesis using Suc.prems(3) by (simp add: r)
      qed
      have "gen_frame w ?w3" by (rule gen_frame_tick)
      then show "ref = cancelRef ?w3" using Suc.prems(3) by (simp add: gen_frame_def)
    qed
    from Suc.hyps(1)[OF m later nf cr, of ?h "snd (nx s)"]
      loop_next[where nx=nx and s=s and hits=hits and w=w and fm=fm and kd=kd and host=host
        and ref=ref, OF le cp nf]
    show ?thesis by (simp only:)
  qed
qed

lemma runSession_survives:
  assumes "\<And>c. host c = [] \<or> host c = [ClickCancel, ClickRunOne k]"
    and "heap w ref \<noteq> Some True" and "ref = cancelRef w"
  shows "\<exists>h w'. runSession fm env host kd n ref w = (Inr (session_result_of kd n h), w')"
proof -
  let ?w0 = "w\<lparr>calls := calls w @ [(kd, n, ref)]\<rparr>"
  have a2: "heap ?w0 ref \<noteq> Some True" and a3: "ref = cancelRef ?w0"
    using assms(2,3) by simp_all
  from loop_survives[where host=host and k=k and w="?w0" and ref=ref and i=1 and n=n and iv=200
      and fm=fm and nx="flipBit default_chunkSize env" and kd=kd and hits=0
      and s="makeBufferedRng default_chunkSize env", OF assms(1) a2 a3]
  obtain h w' where hw: "session_loop fm 200 (flipBit default_chunkSize env) host kd n ref 1 0
      (makeBufferedRng default_chunkSize env) ?w0 = (Inr h, w')"
    by (elim exE)
  then have "runSession fm env host kd n ref w = (Inr (session_result_of kd n h), w')"
    by (simp add: runSession_def Let_def)
  then show ?thesis by (intro exI)
qed

section \<open>The handlers\<close>

lemma start_fields:
  "cancelRef (runOne_start kd w) = cancelRef w" "calls (runOne_start kd w) = calls w"
  "results (runOne_start kd w) = []" "compareLine (runOne_start kd w) = []"
  "error (runOne_start kd w) = []" "running (runOne_start kd w) \<noteq> Idle"
  "heap (runOne_start kd w) (cancelRef w) = Some False" "app_n (runOne_start kd w) = app_n w"
  "cancelRef (runBoth_start w) = cancelRef w" "calls (runBoth_start w) = calls w"
  "results (runBoth_start w) = []" "compareLine (runBoth_start w) = []"
  "error (runBoth_start w) = []" "running (runBoth_start w) = RunBoth"
  "heap (runBoth_start w) (cancelRef w) = Some False" "app_n (runBoth_start w) = app_n w"
  by (simp_all add: runOne_start_def runBoth_start_def reset_def)

lemma between_fields:
  "cancelRef (runBoth_between w) = cancelRef w" "calls (runBoth_between w) = calls w"
  "results (runBoth_between w) = results w" "compareLine (runBoth_between w) = compareLine w"
  "error (runBoth_between w) = error w" "running (runBoth_between w) = running w"
  "heap (runBoth_between w) = heap w" "app_n (runBoth_between w) = app_n w"
  by (simp_all add: runBoth_between_def)

lemma runOne_cases:
  obtains (cancelled) e w3 where
      "runSession fm env host kd (clampN w) (cancelRef w) (runOne_start kd w) = (Inl e, w3)"
      "runOne fm env host kd w = w3\<lparr>error := error_text e, running := Idle\<rparr>"
  | (completed) res w3 where
      "runSession fm env host kd (clampN w) (cancelRef w) (runOne_start kd w) = (Inr res, w3)"
      "runOne fm env host kd w = w3\<lparr>results := [res], running := Idle\<rparr>"
proof (cases "runSession fm env host kd (clampN w) (cancelRef w) (runOne_start kd w)")
  case (Pair out w3)
  show ?thesis
  proof (cases out)
    case (Inl e)
    with Pair have "runOne fm env host kd w = w3\<lparr>error := error_text e, running := Idle\<rparr>"
      by (simp add: runOne_def Let_def clampN_def runOne_start_def reset_def)
    with Pair Inl show ?thesis by (intro cancelled[of e w3]) simp_all
  next
    case (Inr res)
    with Pair have "runOne fm env host kd w = w3\<lparr>results := [res], running := Idle\<rparr>"
      by (simp add: runOne_def Let_def clampN_def runOne_start_def reset_def)
    with Pair Inr show ?thesis by (intro completed[of res w3]) simp_all
  qed
qed

lemma runBoth_cases:
  obtains (focus_cancelled) e w4 where
      "runSession fm envF hostF Focus (clampN w) (cancelRef w) (runBoth_start w) = (Inl e, w4)"
      "runBoth fm envF hostF envC hostC w = w4\<lparr>error := error_text e, running := Idle\<rparr>"
  | (control_cancelled) focus w4 e w7 where
      "runSession fm envF hostF Focus (clampN w) (cancelRef w) (runBoth_start w) = (Inr focus, w4)"
      "runSession fm envC hostC Control (clampN w) (cancelRef w) (runBoth_between w4) = (Inl e, w7)"
      "runBoth fm envF hostF envC hostC w = w7\<lparr>error := error_text e, running := Idle\<rparr>"
  | (completed) focus w4 control w7 where
      "runSession fm envF hostF Focus (clampN w) (cancelRef w) (runBoth_start w) = (Inr focus, w4)"
      "runSession fm envC hostC Control (clampN w) (cancelRef w) (runBoth_between w4) = (Inr control, w7)"
      "runBoth fm envF hostF envC hostC w =
         w7\<lparr>results := [focus, control], compareLine := compare_text fm (diffTest focus control),
            running := Idle\<rparr>"
proof (cases "runSession fm envF hostF Focus (clampN w) (cancelRef w) (runBoth_start w)")
  case (Pair out w4)
  show ?thesis
  proof (cases out)
    case (Inl e)
    with Pair have "runBoth fm envF hostF envC hostC w = w4\<lparr>error := error_text e, running := Idle\<rparr>"
      by (simp add: runBoth_def Let_def clampN_def runBoth_start_def reset_def)
    with Pair Inl show ?thesis by (intro focus_cancelled[of e w4]) simp_all
  next
    case (Inr focus)
    from runSession_gen_frame(1)[OF Pair] have cr: "cancelRef w4 = cancelRef w" by (simp add: start_fields)
    show ?thesis
    proof (cases "runSession fm envC hostC Control (clampN w) (cancelRef w) (runBoth_between w4)")
      case p2: (Pair out2 w7)
      show ?thesis
      proof (cases out2)
        case (Inl e)
        with Pair Inr p2 cr have "runBoth fm envF hostF envC hostC w = w7\<lparr>error := error_text e, running := Idle\<rparr>"
          by (simp add: runBoth_def Let_def clampN_def runBoth_start_def reset_def runBoth_between_def)
        with Pair Inr p2 Inl show ?thesis by (intro control_cancelled[of focus w4 e w7]) simp_all
      next
        case i2: (Inr control)
        with Pair Inr p2 cr have "runBoth fm envF hostF envC hostC w =
           w7\<lparr>results := [focus, control], compareLine := compare_text fm (diffTest focus control),
            running := Idle\<rparr>"
          by (simp add: runBoth_def Let_def clampN_def runBoth_start_def reset_def runBoth_between_def)
        with Pair Inr p2 i2 show ?thesis by (intro completed[of focus w4 control w7]) simp_all
      qed
    qed
  qed
qed

lemma runOne_log:
  "calls (runOne fm env (cancel_clicks clicks) kd w) = calls w @ [(kd, clampN w, cancelRef w)]
   \<and> cancelRef (runOne fm env (cancel_clicks clicks) kd w) = cancelRef w"
proof (cases rule: runOne_cases[of fm env "cancel_clicks clicks" kd w])
  case (cancelled e w3)
  from runSession_frame[OF cancelled(1)] cancelled(2) show ?thesis by (simp add: start_fields)
next
  case (completed res w3)
  from runSession_frame[OF completed(1)] completed(2) show ?thesis by (simp add: start_fields)
qed

lemma runBoth_log:
  "cancelRef (runBoth fm envF (cancel_clicks clicksF) envC (cancel_clicks clicksC) w) = cancelRef w
   \<and> (calls (runBoth fm envF (cancel_clicks clicksF) envC (cancel_clicks clicksC) w) = calls w @ [(Focus, clampN w, cancelRef w)]
      \<or> calls (runBoth fm envF (cancel_clicks clicksF) envC (cancel_clicks clicksC) w)
          = calls w @ [(Focus, clampN w, cancelRef w), (Control, clampN w, cancelRef w)])"
proof (cases rule: runBoth_cases[of fm envF "cancel_clicks clicksF" w envC "cancel_clicks clicksC"])
  case (focus_cancelled e w4)
  from runSession_frame[OF focus_cancelled(1)] focus_cancelled(2) show ?thesis
    by (simp add: start_fields)
next
  case (control_cancelled focus w4 e w7)
  from runSession_frame[OF control_cancelled(1)] runSession_frame[OF control_cancelled(2)]
    control_cancelled(3) show ?thesis
    by (simp add: start_fields between_fields)
next
  case (completed focus w4 control w7)
  from runSession_frame[OF completed(1)] runSession_frame[OF completed(2)]
    completed(3) show ?thesis
    by (simp add: start_fields between_fields)
qed

lemma runOne_cancelled:
  assumes "checkpoint 200 (clampN w) c" "clicks c"
  shows "results (runOne fm env (cancel_clicks clicks) kd w) = [] \<and> error (runOne fm env (cancel_clicks clicks) kd w) = ''Cancelled''
    \<and> heap (runOne fm env (cancel_clicks clicks) kd w) (cancelRef w) = Some True
    \<and> (\<exists>k. checkpoint 200 (clampN w) k \<and> k \<le> c
           \<and> progress (runOne fm env (cancel_clicks clicks) kd w) = js_div (Num (of_int k)) (Num (of_int (clampN w))))"
proof -
  have a1: "cancelRef w = cancelRef (runOne_start kd w)" by (simp add: start_fields)
  have a2: "heap (runOne_start kd w) (cancelRef w) = Some True
      \<or> (running (runOne_start kd w) \<noteq> Idle \<and> clicks c)"
    using assms(2) by (simp add: start_fields)
  from runSession_cancelled[where clicks=clicks and c=c and w="runOne_start kd w" and ref="cancelRef w"
      and n="clampN w" and fm=fm and env=env and kd=kd, OF a1 a2 assms(1)]
  obtain k w' where kw: "runSession fm env (cancel_clicks clicks) kd (clampN w) (cancelRef w) (runOne_start kd w)
        = (Inl (Error ''Cancelled''), w')
      \<and> checkpoint 200 (clampN w) k \<and> k \<le> c
      \<and> progress w' = js_div (Num (of_int k)) (Num (of_int (clampN w)))
      \<and> heap w' (cancelRef w) = Some True"
    by (elim exE)
  show ?thesis
  proof (cases rule: runOne_cases[of fm env "cancel_clicks clicks" kd w])
    case (cancelled e w3)
    with kw have e: "e = Error ''Cancelled''" "w3 = w'" by simp_all
    from runSession_frame[OF cancelled(1)] cancelled(2) e kw
    have "results (runOne fm env (cancel_clicks clicks) kd w) = [] \<and> error (runOne fm env (cancel_clicks clicks) kd w) = ''Cancelled''
      \<and> heap (runOne fm env (cancel_clicks clicks) kd w) (cancelRef w) = Some True
      \<and> progress (runOne fm env (cancel_clicks clicks) kd w) = js_div (Num (of_int k)) (Num (of_int (clampN w)))"
      by (simp add: start_fields)
    with kw show ?thesis by - (intro conjI, simp, simp, simp, rule exI[of _ k], simp)
  next
    case (completed res w3)
    with kw show ?thesis by simp
  qed
qed

lemma runOne_no_click:
  assumes "\<And>c. \<not> clicks c"
  shows "(\<exists>res. results (runOne fm env (cancel_clicks clicks) kd w) = [res])
    \<and> heap (runOne fm env (cancel_clicks clicks) kd w) (cancelRef w) = Some False
    \<and> error (runOne fm env (cancel_clicks clicks) kd w) = []"
proof -
  have nf: "heap (runOne_start kd w) (cancelRef w) \<noteq> Some True" by (simp add: start_fields)
  from runSession_no_click[where clicks=clicks and w="runOne_start kd w" and ref="cancelRef w"
      and n="clampN w" and fm=fm and env=env and kd=kd, OF assms nf]
  obtain res w' where rw: "runSession fm env (cancel_clicks clicks) kd (clampN w) (cancelRef w) (runOne_start kd w)
        = (Inr res, w') \<and> heap w' = heap (runOne_start kd w) \<and> running w' = running (runOne_start kd w)"
    by (elim exE)
  show ?thesis
  proof (cases rule: runOne_cases[of fm env "cancel_clicks clicks" kd w])
    case (cancelled e w3)
    with rw show ?thesis by simp
  next
    case (completed res2 w3)
    with rw have "w3 = w'" by simp
    with runSession_frame[OF completed(1)] completed(2) rw show ?thesis
      by (simp add: start_fields)
  qed
qed

lemma runBoth_cancelled:
  assumes "(\<exists>c. checkpoint 200 (clampN w) c \<and> clicksF c) \<or> (\<exists>c. checkpoint 200 (clampN w) c \<and> clicksC c)"
  shows "results (runBoth fm envF (cancel_clicks clicksF) envC (cancel_clicks clicksC) w) = []
    \<and> compareLine (runBoth fm envF (cancel_clicks clicksF) envC (cancel_clicks clicksC) w) = []
    \<and> error (runBoth fm envF (cancel_clicks clicksF) envC (cancel_clicks clicksC) w) = ''Cancelled''"
proof (cases rule: runBoth_cases[of fm envF "cancel_clicks clicksF" w envC "cancel_clicks clicksC"])
  case (focus_cancelled e w4)
  from runSession_frame[OF focus_cancelled(1)] runSession_error[OF focus_cancelled(1)]
    focus_cancelled(2) show ?thesis
    by (simp add: start_fields)
next
  case (control_cancelled focus w4 e w7)
  from runSession_frame[OF control_cancelled(1)] runSession_frame[OF control_cancelled(2)]
    runSession_error[OF control_cancelled(2)] control_cancelled(3) show ?thesis
    by (simp add: start_fields between_fields)
next
  case (completed focus w4 control w7)
  have F: "\<not> (\<exists>c. checkpoint 200 (clampN w) c \<and> clicksF c)"
  proof
    assume "\<exists>c. checkpoint 200 (clampN w) c \<and> clicksF c"
    then obtain c where c: "checkpoint 200 (clampN w) c" "clicksF c" by (elim exE conjE)
    have a1: "cancelRef w = cancelRef (runBoth_start w)" by (simp add: start_fields)
    have a2: "heap (runBoth_start w) (cancelRef w) = Some True
      \<or> (running (runBoth_start w) \<noteq> Idle \<and> clicksF c)"
      using c(2) by (simp add: start_fields)
    from runSession_cancelled[where clicks=clicksF and c=c and w="runBoth_start w" and ref="cancelRef w"
      and n="clampN w" and fm=fm and env=envF and kd=Focus, OF a1 a2 c(1)] completed(1)
    show False by simp
  qed
  have C: "\<not> (\<exists>c. checkpoint 200 (clampN w) c \<and> clicksC c)"
  proof
    assume "\<exists>c. checkpoint 200 (clampN w) c \<and> clicksC c"
    then obtain c where c: "checkpoint 200 (clampN w) c" "clicksC c" by (elim exE conjE)
    have r0: "cancelRef w = cancelRef (runBoth_start w)" by (simp add: start_fields)
    from runSession_completed[OF completed(1) r0] runSession_frame[OF completed(1)]
    have w4: "running w4 = RunBoth" "cancelRef w4 = cancelRef w" by (simp_all add: start_fields)
    have a1: "cancelRef w = cancelRef (runBoth_between w4)" using w4 by (simp add: between_fields)
    have a2: "heap (runBoth_between w4) (cancelRef w) = Some True
      \<or> (running (runBoth_between w4) \<noteq> Idle \<and> clicksC c)"
      using c(2) w4 by (simp add: between_fields)
    from runSession_cancelled[where clicks=clicksC and c=c and w="runBoth_between w4" and ref="cancelRef w"
      and n="clampN w" and fm=fm and env=envC and kd=Control, OF a1 a2 c(1)] completed(2)
    show False by simp
  qed
  from assms F C show ?thesis by simp
qed

lemma runBoth_all_or_nothing:
  "(results (runBoth fm envF hostF envC hostC w) = []
      \<and> compareLine (runBoth fm envF hostF envC hostC w) = [])
   \<or> (\<exists>f c. results (runBoth fm envF hostF envC hostC w) = [f, c]
         \<and> compareLine (runBoth fm envF hostF envC hostC w) = compare_text fm (diffTest f c)
         \<and> error (runBoth fm envF hostF envC hostC w) = [])"
proof (cases rule: runBoth_cases[of fm envF hostF w envC hostC])
  case (focus_cancelled e w4)
  from runSession_gen_frame(3,4)[OF focus_cancelled(1)] focus_cancelled(2) show ?thesis
    by (simp add: start_fields)
next
  case (control_cancelled focus w4 e w7)
  from runSession_gen_frame(3,4)[OF control_cancelled(1)]
  have "results w4 = []" "compareLine w4 = []" by (simp_all add: start_fields)
  with runSession_gen_frame(3,4)[OF control_cancelled(2)] control_cancelled(3) show ?thesis
    by (simp add: between_fields)
next
  case (completed focus w4 control w7)
  from runSession_gen_frame(5)[OF completed(1)]
  have "error w4 = []" by (simp add: start_fields)
  with runSession_gen_frame(5)[OF completed(2)] completed(3) show ?thesis
    by (simp add: between_fields)
qed

lemma runOne_keeps_n:
  "app_n (runOne fm env (cancel_clicks clicks) kd w) = app_n w"
  "cancelRef (runOne fm env host kd w) = cancelRef w"
proof -
  show "app_n (runOne fm env (cancel_clicks clicks) kd w) = app_n w"
  proof (cases rule: runOne_cases[of fm env "cancel_clicks clicks" kd w])
    case (cancelled e w3)
    from runSession_frame[OF cancelled(1)] cancelled(2) show ?thesis
      by (simp add: start_fields)
  next
    case (completed res w3)
    from runSession_frame[OF completed(1)] completed(2) show ?thesis
      by (simp add: start_fields)
  qed
  show "cancelRef (runOne fm env host kd w) = cancelRef w"
  proof (cases rule: runOne_cases[of fm env host kd w])
    case (cancelled e w3)
    from runSession_gen_frame(1)[OF cancelled(1)] cancelled(2) show ?thesis
      by (simp add: start_fields)
  next
    case (completed res w3)
    from runSession_gen_frame(1)[OF completed(1)] completed(2) show ?thesis
      by (simp add: start_fields)
  qed
qed

lemma clampN_range: "50 \<le> clampN w \<and> clampN w \<le> 2147483647"
  using toInt32_range[of "app_n w"] by (simp add: clampN_def)

lemma clampN_mount: "clampN App_mount = 100000"
  by (simp add: clampN_def App_mount_def toInt32_def Let_def)

lemma toInt32_examples:
  "toInt32 NaN = 0" "toInt32 PosInf = 0" "toInt32 NegInf = 0" "toInt32 (Num 49.9) = 49"
  "toInt32 (Num (- 3.5)) = - 3" "toInt32 (Num 4294967396) = 100" "toInt32 (Num 2147483648) = - 2147483648"
  by (simp_all add: toInt32_def Let_def)

lemma runBoth_subrun_cancelled:
  assumes "(\<exists>e w4. runSession fm envF hostF Focus (clampN w) (cancelRef w) (runBoth_start w) = (Inl e, w4))
    \<or> (\<exists>focus w4 e w7.
          runSession fm envF hostF Focus (clampN w) (cancelRef w) (runBoth_start w) = (Inr focus, w4)
          \<and> runSession fm envC hostC Control (clampN w) (cancelRef w) (runBoth_between w4) = (Inl e, w7))"
  shows "results (runBoth fm envF hostF envC hostC w) = []
    \<and> compareLine (runBoth fm envF hostF envC hostC w) = []
    \<and> error (runBoth fm envF hostF envC hostC w) = ''Cancelled''"
proof (cases rule: runBoth_cases[of fm envF hostF w envC hostC])
  case (focus_cancelled e w4)
  from runSession_gen_frame(3,4)[OF focus_cancelled(1)] runSession_error[OF focus_cancelled(1)]
    focus_cancelled(2) show ?thesis
    by (simp add: start_fields)
next
  case (control_cancelled focus w4 e w7)
  from runSession_gen_frame(3,4)[OF control_cancelled(1)]
  have "results w4 = []" "compareLine w4 = []" by (simp_all add: start_fields)
  with runSession_gen_frame(3,4)[OF control_cancelled(2)]
    runSession_error[OF control_cancelled(2)] control_cancelled(3) show ?thesis
    by (simp add: between_fields)
next
  case (completed focus w4 control w7)
  with assms show ?thesis by simp
qed

lemma runOne_log_any_host:
  "\<exists>xs. calls (runOne fm env host kd w) = calls w @ (kd, clampN w, cancelRef w) # xs
        \<and> clamped_args w xs"
proof (cases rule: runOne_cases[of fm env host kd w])
  case (cancelled e w3)
  from runSession_gen_frame(2)[OF cancelled(1)] cancelled(2) show ?thesis
    by (simp add: start_fields clamped_args_def)
next
  case (completed res w3)
  from runSession_gen_frame(2)[OF completed(1)] completed(2) show ?thesis
    by (simp add: start_fields clamped_args_def)
qed

lemma runBoth_log_any_host:
  "cancelRef (runBoth fm envF hostF envC hostC w) = cancelRef w
   \<and> (\<exists>xs. calls (runBoth fm envF hostF envC hostC w)
             = calls w @ (Focus, clampN w, cancelRef w) # xs
        \<and> clamped_args w xs)"
proof (cases rule: runBoth_cases[of fm envF hostF w envC hostC])
  case (focus_cancelled e w4)
  from runSession_gen_frame(1,2)[OF focus_cancelled(1)] focus_cancelled(2) show ?thesis
    by (simp add: start_fields clamped_args_def clampN_def)
next
  case (control_cancelled focus w4 e w7)
  from runSession_gen_frame(1,2)[OF control_cancelled(1)]
  obtain xs where xs: "calls w4 = calls w @ (Focus, clampN w, cancelRef w) # xs" "clamped_args w xs"
    and w4: "cancelRef w4 = cancelRef w"
    by (auto simp add: start_fields clamped_args_def)
  from runSession_gen_frame(1,2)[OF control_cancelled(2)] w4
  obtain ys where ys: "calls w7 = calls w4 @ (Control, clampN w, cancelRef w) # ys" "clamped_args w ys"
    and w7: "cancelRef w7 = cancelRef w"
    by (auto simp add: between_fields clamped_args_def)
  have "calls w7 = calls w @ (Focus, clampN w, cancelRef w) # (xs @ (Control, clampN w, cancelRef w) # ys)"
    using xs ys by simp
  moreover have "clamped_args w (xs @ (Control, clampN w, cancelRef w) # ys)"
    using xs ys clampN_range[of w] by (simp add: clamped_args_def)
  ultimately show ?thesis using control_cancelled(3) w7 by auto
next
  case (completed focus w4 control w7)
  from runSession_gen_frame(1,2)[OF completed(1)]
  obtain xs where xs: "calls w4 = calls w @ (Focus, clampN w, cancelRef w) # xs" "clamped_args w xs"
    and w4: "cancelRef w4 = cancelRef w"
    by (auto simp add: start_fields clamped_args_def)
  from runSession_gen_frame(1,2)[OF completed(2)] w4
  obtain ys where ys: "calls w7 = calls w4 @ (Control, clampN w, cancelRef w) # ys" "clamped_args w ys"
    and w7: "cancelRef w7 = cancelRef w"
    by (auto simp add: between_fields clamped_args_def)
  have "calls w7 = calls w @ (Focus, clampN w, cancelRef w) # (xs @ (Control, clampN w, cancelRef w) # ys)"
    using xs ys by simp
  moreover have "clamped_args w (xs @ (Control, clampN w, cancelRef w) # ys)"
    using xs ys clampN_range[of w] by (simp add: clamped_args_def)
  ultimately show ?thesis using completed(3) w7 by auto
qed

lemma runOne_survives:
  assumes "\<And>c. host c = [] \<or> host c = [ClickCancel, ClickRunOne k]"
  shows "\<exists>h. results (runOne fm env host kd w) = [session_result_of kd (clampN w) h]
    \<and> error (runOne fm env host kd w) = []"
proof -
  have nf: "heap (runOne_start kd w) (cancelRef w) \<noteq> Some True"
    and cr: "cancelRef w = cancelRef (runOne_start kd w)" by (simp_all add: start_fields)
  from runSession_survives[where host=host and k=k and w="runOne_start kd w" and ref="cancelRef w"
      and n="clampN w" and fm=fm and env=env and kd=kd, OF assms nf cr]
  obtain h w' where hw: "runSession fm env host kd (clampN w) (cancelRef w) (runOne_start kd w)
      = (Inr (session_result_of kd (clampN w) h), w')"
    by (elim exE)
  show ?thesis
  proof (cases rule: runOne_cases[of fm env host kd w])
    case (cancelled e w3)
    with hw show ?thesis by simp
  next
    case (completed res w3)
    with hw have r: "res = session_result_of kd (clampN w) h" by simp
    from runSession_gen_frame(5)[OF completed(1)] have "error w3 = []" by (simp add: start_fields)
    with completed(2) r show ?thesis by - (rule exI[of _ h], simp)
  qed
qed

lemma clamped_args_token:
  "clamped_args w xs \<Longrightarrow> list_all (\<lambda>c. snd (snd c) = cancelRef w) xs"
  by (induction xs) (simp_all add: clamped_args_def)

lemma clamped_args_bounds:
  "clamped_args w xs \<Longrightarrow> list_all (\<lambda>c. 50 \<le> fst (snd c) \<and> fst (snd c) \<le> 2147483647) xs"
  by (induction xs) (simp_all add: clamped_args_def)

lemma handle_token: "cancelRef (handle e w) = cancelRef w"
  using gen_frame_handle[of w e] by (simp add: gen_frame_def)

section \<open>The degraded entropy source\<close>

lemma source_byte_twin: "source_byte (secure_twin env) = source_byte env"
  by (rule ext) (simp add: source_byte_def secure_twin_def)

lemma refill_cong: "source_byte e1 = source_byte e2 \<Longrightarrow> refill c e1 r = refill c e2 r"
  by (simp add: refill_source)

lemma flipBit_cong: "source_byte e1 = source_byte e2 \<Longrightarrow> flipBit c e1 = flipBit c e2"
  by (rule ext) (simp add: flipBit_def refill_cong[of e1 e2])

lemma makeBufferedRng_cong:
  "source_byte e1 = source_byte e2 \<Longrightarrow> makeBufferedRng c e1 = makeBufferedRng c e2"
  by (simp add: makeBufferedRng_def refill_cong[of e1 e2])

lemma runSession_cong:
  "source_byte e1 = source_byte e2 \<Longrightarrow> runSession fm e1 = runSession fm e2"
  by (intro ext) (simp add: runSession_def flipBit_cong[of e1 e2] makeBufferedRng_cong[of e1 e2])

lemma runOne_cong:
  "source_byte e1 = source_byte e2 \<Longrightarrow> runOne fm e1 = runOne fm e2"
  by (intro ext) (simp add: runOne_def runSession_cong[of e1 e2])

lemma runBoth_cong:
  assumes "source_byte e1 = source_byte e2"
  shows "runBoth fm e1 hF eC hC w = runBoth fm e2 hF eC hC w"
  unfolding runBoth_def runSession_cong[OF assms] by (rule refl)

lemma runBoth_cong2:
  assumes "source_byte e1 = source_byte e2"
  shows "runBoth fm eF hF e1 hC w = runBoth fm eF hF e2 hC w"
  unfolding runBoth_def runSession_cong[OF assms] by (rule refl)

lemma source_byte_examples: "source_byte env_degraded = source_byte env_secure"
  by (rule ext) (simp add: source_byte_def env_degraded_def env_secure_def)

text \<open>
  Claim C8, as the code has it. When \<open>crypto.getRandomValues\<close> is missing, \<open>refill\<close>
  fills the buffer with \<open>Math.floor(Math.random() * 256)\<close> and nothing else changes:
  the environment in which the secure source exists and delivers the same bytes gives the
  same bits, the same outcome of \<open>runSession\<close> and the same component state after
  \<open>runOne\<close> and \<open>runBoth\<close>. The substitution leaves no trace a caller could observe.
\<close>

theorem fallback_is_silent:
  assumes "\<not> crypto_available env"
  shows "buf (refill c env r) = map (\<lambda>i. word_of_int \<lfloor>mathRandom env (drawn r + i) * 256\<rfloor>) [0..<c]
    \<and> crypto_available (secure_twin env)
    \<and> flipBit default_chunkSize env r = flipBit default_chunkSize (secure_twin env) r
    \<and> runSession fm env host kd n ref w = runSession fm (secure_twin env) host kd n ref w
    \<and> runOne fm env host kd w = runOne fm (secure_twin env) host kd w
    \<and> runBoth fm env host envC hostC w = runBoth fm (secure_twin env) host envC hostC w
    \<and> runBoth fm envF hostF env host w = runBoth fm envF hostF (secure_twin env) host w"
proof -
  have tw: "source_byte env = source_byte (secure_twin env)" by (simp add: source_byte_twin)
  have "buf (refill c env r) = map (\<lambda>i. word_of_int \<lfloor>mathRandom env (drawn r + i) * 256\<rfloor>) [0..<c]"
    using assms by (simp add: refill_def Let_def)
  moreover have "crypto_available (secure_twin env)" by (simp add: secure_twin_def)
  moreover note flipBit_cong[OF tw, of default_chunkSize] runSession_cong[OF tw, of fm] runOne_cong[OF tw, of fm]
    runBoth_cong[OF tw, of fm host envC hostC w] runBoth_cong2[OF tw, of fm envF hostF host w]
  ultimately show ?thesis by simp
qed

theorem fallback_is_silent_witness:
  "\<not> crypto_available env_degraded
   \<and> crypto_available (secure_twin env_degraded)
   \<and> runOne plain_formatter env_degraded (\<lambda>i. []) Focus App_mount
       = runOne plain_formatter (secure_twin env_degraded) (\<lambda>i. []) Focus App_mount"
proof -
  have d: "\<not> crypto_available env_degraded" by (simp add: env_degraded_def)
  from fallback_is_silent [OF d, of _ _ plain_formatter "\<lambda>i. []" Focus _ _ App_mount]
  show ?thesis using d by simp
qed

text \<open>
  Claim C8 as stated fails: a degraded and a secure environment that hand out the same
  bytes give the same bits and the same component state after a run and after a comparison.
\<close>

theorem fallback_not_observable_counterexample:
  "crypto_available env_secure \<and> \<not> crypto_available env_degraded
   \<and> map (bit_no 2 env_degraded) [0, 1, 2, 3] = map (bit_no 2 env_secure) [0, 1, 2, 3]
   \<and> runOne plain_formatter env_degraded (\<lambda>i. []) Focus App_mount
       = runOne plain_formatter env_secure (\<lambda>i. []) Focus App_mount
   \<and> runBoth plain_formatter env_degraded (\<lambda>i. []) env_degraded (\<lambda>i. []) App_mount
       = runBoth plain_formatter env_secure (\<lambda>i. []) env_secure (\<lambda>i. []) App_mount"
proof -
  note sb = source_byte_examples
  have "runBoth plain_formatter env_degraded (\<lambda>i. []) env_degraded (\<lambda>i. []) App_mount
       = runBoth plain_formatter env_secure (\<lambda>i. []) env_secure (\<lambda>i. []) App_mount"
    by (simp add: runBoth_cong[OF sb] runBoth_cong2[OF sb])
  then show ?thesis
    by (simp add: runOne_cong[OF sb] bit_no_source sb) (simp add: env_secure_def env_degraded_def)
qed

section \<open>Cancellation\<close>

text \<open>
  Claim C5 fails on the code at this input. A Focus run of 100000 trials is started from
  the mounted component; during the suspension at trial 200, a checkpoint, the user clicks
  Cancel and then Run Control. The Cancel click sets the flag of the token and sets
  \<open>running\<close> to idle, so the Run click is accepted, and its \<open>reset()\<close> clears the flag
  of the same token before the Focus run reads it. The Focus run throws nothing: it goes
  on to trial 100000 and \<open>runOne\<close> stores its result, with no error message.
\<close>

theorem cancel_then_run_survives:
  "checkpoint 200 (clampN App_mount) 200
   \<and> cancel_then_run 200 = [ClickCancel, ClickRunOne Control]
   \<and> heap (handle ClickCancel (runOne_start Focus App_mount)) (cancelRef App_mount) = Some True
   \<and> running (handle ClickCancel (runOne_start Focus App_mount)) = Idle
   \<and> heap (handle (ClickRunOne Control) (handle ClickCancel (runOne_start Focus App_mount)))
        (cancelRef App_mount) = Some False
   \<and> (\<exists>h. results (runOne plain_formatter env_secure cancel_then_run Focus App_mount)
            = [session_result_of Focus 100000 h])
   \<and> error (runOne plain_formatter env_secure cancel_then_run Focus App_mount) = []"
proof -
  have cp: "checkpoint 200 (clampN App_mount) 200" by (simp add: clampN_mount checkpoint_def)
  have sched: "\<And>c. cancel_then_run c = [] \<or> cancel_then_run c = [ClickCancel, ClickRunOne Control]"
    by (simp add: cancel_then_run_def)
  from runOne_survives[where host=cancel_then_run and k=Control and fm=plain_formatter
      and env=env_secure and kd=Focus and w=App_mount, OF sched]
  have run: "(\<exists>h. results (runOne plain_formatter env_secure cancel_then_run Focus App_mount)
            = [session_result_of Focus 100000 h])
     \<and> error (runOne plain_formatter env_secure cancel_then_run Focus App_mount) = []"
    by (simp add: clampN_mount)
  have flags: "heap (handle ClickCancel (runOne_start Focus App_mount)) (cancelRef App_mount) = Some True"
    "running (handle ClickCancel (runOne_start Focus App_mount)) = Idle"
    "heap (handle (ClickRunOne Control) (handle ClickCancel (runOne_start Focus App_mount)))
        (cancelRef App_mount) = Some False"
    by (simp_all add: runOne_start_def reset_def cancel_def click_runOne_def Let_def App_mount_def)
  from cp run flags show ?thesis by (simp add: cancel_then_run_def)
qed

text \<open>
  Claim C6. If the Focus run throws, or the Focus run completes and the Control run throws,
  \<open>runBoth\<close> ends with an empty list of results, an empty comparison line and the
  message \<open>Cancelled\<close>, whatever the host does; so it does when a host that only clicks
  Cancel clicks it at a checkpoint of either run. Whatever happens, \<open>runBoth\<close> ends
  either with no result and no comparison line or with both results and the comparison
  line of the two: never with one result alone.
\<close>

theorem runBoth_cancel_aborts:
  "(((\<exists>e w4. runSession fm envF hostF Focus (clampN w) (cancelRef w) (runBoth_start w) = (Inl e, w4))
      \<or> (\<exists>focus w4 e w7.
            runSession fm envF hostF Focus (clampN w) (cancelRef w) (runBoth_start w) = (Inr focus, w4)
            \<and> runSession fm envC hostC Control (clampN w) (cancelRef w) (runBoth_between w4)
                = (Inl e, w7)))
     \<longrightarrow> results (runBoth fm envF hostF envC hostC w) = []
         \<and> compareLine (runBoth fm envF hostF envC hostC w) = []
         \<and> error (runBoth fm envF hostF envC hostC w) = ''Cancelled'')
   \<and> (((\<exists>c. checkpoint 200 (clampN w) c \<and> clicksF c) \<or> (\<exists>c. checkpoint 200 (clampN w) c \<and> clicksC c))
     \<longrightarrow> results (runBoth fm envF (cancel_clicks clicksF) envC (cancel_clicks clicksC) w) = []
         \<and> compareLine (runBoth fm envF (cancel_clicks clicksF) envC (cancel_clicks clicksC) w) = []
         \<and> error (runBoth fm envF (cancel_clicks clicksF) envC (cancel_clicks clicksC) w)
             = ''Cancelled'')
   \<and> ((results (runBoth fm envF hostF envC hostC w) = []
         \<and> compareLine (runBoth fm envF hostF envC hostC w) = [])
       \<or> (\<exists>f c. results (runBoth fm envF hostF envC hostC w) = [f, c]
             \<and> compareLine (runBoth fm envF hostF envC hostC w)
                 = compare_text fm (diffTest f c)
             \<and> error (runBoth fm envF hostF envC hostC w) = []))"
proof (intro conjI impI)
  assume "(\<exists>e w4. runSession fm envF hostF Focus (clampN w) (cancelRef w) (runBoth_start w) = (Inl e, w4))
      \<or> (\<exists>focus w4 e w7.
            runSession fm envF hostF Focus (clampN w) (cancelRef w) (runBoth_start w) = (Inr focus, w4)
            \<and> runSession fm envC hostC Control (clampN w) (cancelRef w) (runBoth_between w4)
                = (Inl e, w7))"
  from runBoth_subrun_cancelled[OF this]
  show "results (runBoth fm envF hostF envC hostC w) = []"
    "compareLine (runBoth fm envF hostF envC hostC w) = []"
    "error (runBoth fm envF hostF envC hostC w) = ''Cancelled''" by simp_all
next
  assume "(\<exists>c. checkpoint 200 (clampN w) c \<and> clicksF c) \<or> (\<exists>c. checkpoint 200 (clampN w) c \<and> clicksC c)"
  from runBoth_cancelled[OF this, of fm envF envC]
  show "results (runBoth fm envF (cancel_clicks clicksF) envC (cancel_clicks clicksC) w) = []"
    "compareLine (runBoth fm envF (cancel_clicks clicksF) envC (cancel_clicks clicksC) w) = []"
    "error (runBoth fm envF (cancel_clicks clicksF) envC (cancel_clicks clicksC) w) = ''Cancelled''"
    by simp_all
next
  show "(results (runBoth fm envF hostF envC hostC w) = []
         \<and> compareLine (runBoth fm envF hostF envC hostC w) = [])
       \<or> (\<exists>f c. results (runBoth fm envF hostF envC hostC w) = [f, c]
             \<and> compareLine (runBoth fm envF hostF envC hostC w)
                 = compare_text fm (diffTest f c)
             \<and> error (runBoth fm envF hostF envC hostC w) = [])"
    by (rule runBoth_all_or_nothing)
qed

theorem runBoth_cancel_aborts_witness:
  "checkpoint 200 (clampN App_mount) 400 \<and> (\<lambda>i. i = 400) (400::int)
   \<and> (\<exists>e w4. runSession plain_formatter env_secure (cancel_clicks (\<lambda>i. i = 400)) Focus
                 (clampN App_mount) (cancelRef App_mount) (runBoth_start App_mount) = (Inl e, w4))
   \<and> results (runBoth plain_formatter env_secure (cancel_clicks (\<lambda>i. i = 400)) env_degraded
                (cancel_clicks (\<lambda>i. False)) App_mount) = []
   \<and> compareLine (runBoth plain_formatter env_secure (cancel_clicks (\<lambda>i. i = 400)) env_degraded
                (cancel_clicks (\<lambda>i. False)) App_mount) = []
   \<and> error (runBoth plain_formatter env_secure (cancel_clicks (\<lambda>i. i = 400)) env_degraded
                (cancel_clicks (\<lambda>i. False)) App_mount) = ''Cancelled''"
proof -
  have cp: "checkpoint 200 (clampN App_mount) 400" by (simp add: clampN_mount checkpoint_def)
  have a1: "cancelRef App_mount = cancelRef (runBoth_start App_mount)" by (simp add: start_fields)
  have a2: "heap (runBoth_start App_mount) (cancelRef App_mount) = Some True
      \<or> (running (runBoth_start App_mount) \<noteq> Idle \<and> (\<lambda>i. i = 400) (400::int))"
    by (simp add: start_fields)
  from runSession_cancelled[where clicks="\<lambda>i. i = 400" and c=400 and w="runBoth_start App_mount"
      and ref="cancelRef App_mount" and n="clampN App_mount" and fm=plain_formatter
      and env=env_secure and kd=Focus, OF a1 a2 cp]
  have thrown: "\<exists>e w4. runSession plain_formatter env_secure (cancel_clicks (\<lambda>i. i = 400)) Focus
                 (clampN App_mount) (cancelRef App_mount) (runBoth_start App_mount) = (Inl e, w4)"
    by (elim exE conjE) (intro exI)
  from cp have clicked: "(\<exists>c. checkpoint 200 (clampN App_mount) c \<and> (\<lambda>i. i = 400) c)
      \<or> (\<exists>c. checkpoint 200 (clampN App_mount) c \<and> (\<lambda>i. False) c)"
    by (intro disjI1 exI[of _ 400]) simp
  from runBoth_cancel_aborts[where w=App_mount and clicksF="\<lambda>i. i = 400" and clicksC="\<lambda>i. False"
      and hostF="cancel_clicks (\<lambda>i. i = 400)" and hostC="cancel_clicks (\<lambda>i. False)"
      and fm=plain_formatter and envF=env_secure and envC=env_degraded] thrown clicked cp
  show ?thesis by simp
qed

section \<open>The cancellation token\<close>

text \<open>
  Claim C9, as the code has it. \<open>useRef\<close> allocates one token when the component mounts,
  and no handler ever replaces it: \<open>runOne\<close> and \<open>runBoth\<close> hand that same token to every
  run, and so does a Run click handled while a run is suspended. \<open>reset\<close>, at the start
  of a run, sets its flag to false; \<open>cancel\<close> sets it to true. Between two starts the
  flag, once true, stays true: with a host that only clicks Cancel neither the suspension
  of a run nor the run itself clears it.
\<close>

theorem cancel_token_is_shared:
  "cancelRef App_mount = 0 \<and> heap App_mount 0 = Some False
   \<and> cancelRef (reset w) = cancelRef w \<and> cancelRef (cancel w) = cancelRef w
   \<and> cancelRef (handle e w) = cancelRef w
   \<and> cancelRef (runOne fm env host kd w) = cancelRef w
   \<and> cancelRef (runBoth fm envF hostF envC hostC w) = cancelRef w
   \<and> calls (runOne fm env (cancel_clicks clicks) kd w) = calls w @ [(kd, clampN w, cancelRef w)]
   \<and> (\<exists>xs. calls (runOne fm env host kd w) = calls w @ (kd, clampN w, cancelRef w) # xs
         \<and> list_all (\<lambda>c. snd (snd c) = cancelRef w) xs)
   \<and> (\<exists>xs. calls (runBoth fm envF hostF envC hostC w)
               = calls w @ (Focus, clampN w, cancelRef w) # xs
         \<and> list_all (\<lambda>c. snd (snd c) = cancelRef w) xs)
   \<and> heap (reset w) (cancelRef w) = Some False
   \<and> heap (cancel w) (cancelRef w) = Some True
   \<and> (heap w ref = Some True \<longrightarrow> heap (nextTick (cancel_clicks clicks) i w) ref = Some True)
   \<and> (heap w ref = Some True \<longrightarrow>
         heap (snd (runSession fm env (cancel_clicks clicks) kd n ref w)) ref = Some True)"
proof -
  from runOne_log_any_host[of fm env host kd w]
  obtain xs where xs: "calls (runOne fm env host kd w) = calls w @ (kd, clampN w, cancelRef w) # xs"
    "clamped_args w xs" by (elim exE conjE)
  from clamped_args_token[OF xs(2)] xs(1)
  have one: "\<exists>xs. calls (runOne fm env host kd w) = calls w @ (kd, clampN w, cancelRef w) # xs
         \<and> list_all (\<lambda>c. snd (snd c) = cancelRef w) xs"
    by (intro exI[of _ xs]) simp
  from runBoth_log_any_host[of fm envF hostF envC hostC w]
  obtain ys where ys: "calls (runBoth fm envF hostF envC hostC w)
             = calls w @ (Focus, clampN w, cancelRef w) # ys"
    "clamped_args w ys" and cr: "cancelRef (runBoth fm envF hostF envC hostC w) = cancelRef w"
    by (elim exE conjE)
  from clamped_args_token[OF ys(2)] ys(1)
  have both: "\<exists>xs. calls (runBoth fm envF hostF envC hostC w)
               = calls w @ (Focus, clampN w, cancelRef w) # xs
         \<and> list_all (\<lambda>c. snd (snd c) = cancelRef w) xs"
    by (intro exI[of _ ys]) simp
  from one both cr runOne_log[of fm env clicks kd w]
    runSession_flag_stays[of w ref fm env clicks kd n] runOne_keeps_n(2)[of fm env host kd w]
    handle_token[of e w]
  show ?thesis
    by (simp add: App_mount_def reset_def cancel_def tick_keeps_flag)
qed

theorem cancel_token_is_shared_witness:
  "heap (cancel App_mount) 0 = Some True
   \<and> heap (nextTick (cancel_clicks (\<lambda>i. True)) 200 (cancel App_mount)) 0 = Some True
   \<and> heap (snd (runSession plain_formatter env_secure (cancel_clicks (\<lambda>i. False)) Focus 50 0
                  (cancel App_mount))) 0
       = Some True"
proof -
  have h: "heap (cancel App_mount) 0 = Some True" by (simp add: cancel_def App_mount_def)
  from cancel_token_is_shared[where w="cancel App_mount" and ref=0 and clicks="\<lambda>i. True" and i=200]
    cancel_token_is_shared[where w="cancel App_mount" and ref=0 and clicks="\<lambda>i. False"
      and fm=plain_formatter and env=env_secure and kd=Focus and n=50] h
  show ?thesis by simp
qed

text \<open>
  Claim C9 as stated fails: a Focus run that is cancelled and the Control run started
  after it are handed the same token, the object at address 0; the flag the cancellation
  had set is false again after the second run.
\<close>

theorem token_reused_counterexample:
  "calls (runOne plain_formatter env_secure (cancel_clicks (\<lambda>i. False)) Control
            (runOne plain_formatter env_secure (cancel_clicks (\<lambda>i. i = 200)) Focus App_mount))
     = [(Focus, 100000, 0), (Control, 100000, 0)]
   \<and> heap (runOne plain_formatter env_secure (cancel_clicks (\<lambda>i. i = 200)) Focus App_mount) 0
       = Some True
   \<and> heap (runOne plain_formatter env_secure (cancel_clicks (\<lambda>i. False)) Control
            (runOne plain_formatter env_secure (cancel_clicks (\<lambda>i. i = 200)) Focus App_mount)) 0
       = Some False"
proof -
  let ?w1 = "runOne plain_formatter env_secure (cancel_clicks (\<lambda>i. i = 200)) Focus App_mount"
  let ?w2 = "runOne plain_formatter env_secure (cancel_clicks (\<lambda>i. False)) Control ?w1"
  have m: "cancelRef App_mount = 0" "calls App_mount = []" by (simp_all add: App_mount_def)
  have l1: "calls ?w1 = [(Focus, 100000, 0)]" "cancelRef ?w1 = 0"
    using runOne_log[of plain_formatter env_secure "\<lambda>i. i = 200" Focus App_mount]
    by (simp_all add: m clampN_mount)
  have "clampN ?w1 = clampN App_mount" by (simp add: clampN_def runOne_keeps_n)
  then have n1: "clampN ?w1 = 100000" by (simp add: clampN_mount)
  have l2: "calls ?w2 = [(Focus, 100000, 0), (Control, 100000, 0)]"
    using runOne_log[of plain_formatter env_secure "\<lambda>i. False" Control ?w1]
    by (simp add: l1 n1)
  have cp: "checkpoint 200 (clampN App_mount) 200" by (simp add: clampN_mount checkpoint_def)
  have h1: "heap ?w1 0 = Some True"
    using runOne_cancelled[where w=App_mount and c=200 and clicks="\<lambda>i. i = 200"
        and fm=plain_formatter and env=env_secure and kd=Focus, OF cp]
    by (simp add: m)
  have h2: "heap ?w2 0 = Some False"
    using runOne_no_click[where clicks="\<lambda>i. False" and w="?w1" and fm=plain_formatter
        and env=env_secure and kd=Control]
    by (simp add: l1)
  from l2 h1 h2 show ?thesis by simp
qed

section \<open>The trial count\<close>

text \<open>
  Claim C10. \<open>runOne\<close> and \<open>runBoth\<close> call \<open>runSession\<close> with
  \<open>Math.max(50, n | 0)\<close>, whatever number the state \<open>n\<close> holds: an integer between 50
  and \<open>2\<^sup>3\<^sup>1 - 1\<close>. \<open>NaN\<close> and the infinities become 0 and a fraction is truncated
  before the maximum is taken. Whatever the host does during the suspensions, every call
  the history records passes a count in that range.
\<close>

theorem trial_count_clamped:
  "50 \<le> clampN w \<and> clampN w \<le> 2147483647 \<and> clampN w = max 50 (toInt32 (app_n w))
   \<and> calls (runOne fm env (cancel_clicks clicks) kd w) = calls w @ [(kd, clampN w, cancelRef w)]
   \<and> (calls (runBoth fm envF (cancel_clicks clicksF) envC (cancel_clicks clicksC) w)
         = calls w @ [(Focus, clampN w, cancelRef w)]
      \<or> calls (runBoth fm envF (cancel_clicks clicksF) envC (cancel_clicks clicksC) w)
          = calls w @ [(Focus, clampN w, cancelRef w), (Control, clampN w, cancelRef w)])
   \<and> (\<exists>xs. calls (runOne fm env host kd w) = calls w @ (kd, clampN w, cancelRef w) # xs
         \<and> list_all (\<lambda>c. 50 \<le> fst (snd c) \<and> fst (snd c) \<le> 2147483647) xs)
   \<and> (\<exists>xs. calls (runBoth fm envF hostF envC hostC w)
               = calls w @ (Focus, clampN w, cancelRef w) # xs
         \<and> list_all (\<lambda>c. 50 \<le> fst (snd c) \<and> fst (snd c) \<le> 2147483647) xs)
   \<and> max 50 (toInt32 NaN) = 50 \<and> max 50 (toInt32 PosInf) = 50
   \<and> max 50 (toInt32 (Num 49.9)) = 50 \<and> max 50 (toInt32 (Num (- 3.5))) = 50
   \<and> max 50 (toInt32 (Num 2147483648)) = 50 \<and> max 50 (toInt32 (Num 120.7)) = 120"
proof -
  from runOne_log_any_host[of fm env host kd w]
  obtain xs where xs: "calls (runOne fm env host kd w) = calls w @ (kd, clampN w, cancelRef w) # xs"
    "clamped_args w xs" by (elim exE conjE)
  from clamped_args_bounds[OF xs(2)] xs(1)
  have one: "\<exists>xs. calls (runOne fm env host kd w) = calls w @ (kd, clampN w, cancelRef w) # xs
         \<and> list_all (\<lambda>c. 50 \<le> fst (snd c) \<and> fst (snd c) \<le> 2147483647) xs"
    by (intro exI[of _ xs]) simp
  from runBoth_log_any_host[of fm envF hostF envC hostC w]
  obtain ys where ys: "calls (runBoth fm envF hostF envC hostC w)
             = calls w @ (Focus, clampN w, cancelRef w) # ys"
    "clamped_args w ys"
    by (elim exE conjE)
  from clamped_args_bounds[OF ys(2)] ys(1)
  have both: "\<exists>xs. calls (runBoth fm envF hostF envC hostC w)
               = calls w @ (Focus, clampN w, cancelRef w) # xs
         \<and> list_all (\<lambda>c. 50 \<le> fst (snd c) \<and> fst (snd c) \<le> 2147483647) xs"
    by (intro exI[of _ ys]) simp
  from one both clampN_range[of w] runOne_log[of fm env clicks kd w]
    runBoth_log[of fm envF clicksF envC clicksC w]
  show ?thesis
    by (simp add: clampN_def toInt32_def Let_def)
qed

end
